theory Spec2Isabelle
  imports Main "HOL-Library.Word" "HOL-Library.AList" "HOL-Library.Finite_Map" "HOL-Library.Log_Nat"
begin

chapter \<open>The model\<close>

section \<open>Time, durations and Go integers\<close>

text \<open>
  Go's \<open>int\<close> (on the 64-bit targets the bot is built for), \<open>int64\<close> and
  \<open>time.Duration\<close> are 64-bit two's complement integers: they are words here, read
  with \<open>sint\<close>, and their arithmetic wraps around as Go's does. A \<open>time.Time\<close> is
  an instant; it is modelled as the integer number of nanoseconds between a fixed epoch and
  the instant (the range of \<open>time.Time\<close>, some 10^11 years either way, is not
  modelled). The location of a \<open>time.Time\<close> does not take part in comparisons or
  differences and is left out. Every reading of the wall clock (\<open>time.Now()\<close>) is an
  explicit argument of the function that reads it.
\<close>

type_synonym go_int = "64 word"
type_synonym int64 = "64 word"
type_synonym Duration = "64 word"
type_synonym Time = int
type_synonym bytes = string

definition Nanosecond :: Duration where
  "Nanosecond = 1"

definition Second :: Duration where
  "Second = 1000000000 * Nanosecond"

definition Minute :: Duration where
  "Minute = 60 * Second"

definition Hour :: Duration where
  "Hour = 60 * Minute"

definition time_Add :: "Time \<Rightarrow> Duration \<Rightarrow> Time" where
  "time_Add t d = t + sint d"

definition time_Before :: "Time \<Rightarrow> Time \<Rightarrow> bool" where
  "time_Before t u = (t < u)"

definition time_After :: "Time \<Rightarrow> Time \<Rightarrow> bool" where
  "time_After t u = (u < t)"

text \<open>\<open>t.Sub(u)\<close> saturates at the least and the greatest \<open>Duration\<close>.\<close>

definition minDuration :: int where
  "minDuration = - (2 ^ 63)"

definition maxDuration :: int where
  "maxDuration = 2 ^ 63 - 1"

definition time_Sub :: "Time \<Rightarrow> Time \<Rightarrow> Duration" where
  "time_Sub t u =
     (let d = t - u
      in if d < minDuration then word_of_int minDuration
         else if maxDuration < d then word_of_int maxDuration
         else word_of_int d)"

definition thirtyMinutes :: int where
  "thirtyMinutes = 30 * 60 * 1000000000"

definition nanosPerMinute :: int where
  "nanosPerMinute = 60 * 1000000000"

definition nanosPerDay :: int where
  "nanosPerDay = 24 * 60 * 60 * 1000000000"

section \<open>Strings\<close>

text \<open>
  A Go string is a sequence of bytes, here a \<open>char list\<close>. \<open>strings.TrimSpace\<close>
  removes, at both ends, the code points for which \<open>unicode.IsSpace\<close> holds: six ASCII
  characters, and U+0085, U+00A0, U+1680, U+2000 to U+200A, U+2028, U+2029, U+202F, U+205F
  and U+3000, which are recognised by their UTF-8 encodings (a byte that does not start
  or end such an encoding decodes to a code point that is not a space, and stops the
  trimming). \<open>bytes.TrimSpace\<close> is the same function on byte slices.
\<close>

definition asciiSpace :: "char \<Rightarrow> bool" where
  "asciiSpace c = (c \<in> set [CHR 0x09, CHR 0x0A, CHR 0x0B, CHR 0x0C, CHR 0x0D, CHR 0x20])"

definition spaceRune :: "string \<Rightarrow> bool" where
  "spaceRune s =
     (s \<in> set [[CHR 0xC2, CHR 0x85], [CHR 0xC2, CHR 0xA0], [CHR 0xE1, CHR 0x9A, CHR 0x80],
               [CHR 0xE2, CHR 0x80, CHR 0x80], [CHR 0xE2, CHR 0x80, CHR 0x81],
               [CHR 0xE2, CHR 0x80, CHR 0x82], [CHR 0xE2, CHR 0x80, CHR 0x83],
               [CHR 0xE2, CHR 0x80, CHR 0x84], [CHR 0xE2, CHR 0x80, CHR 0x85],
               [CHR 0xE2, CHR 0x80, CHR 0x86], [CHR 0xE2, CHR 0x80, CHR 0x87],
               [CHR 0xE2, CHR 0x80, CHR 0x88], [CHR 0xE2, CHR 0x80, CHR 0x89],
               [CHR 0xE2, CHR 0x80, CHR 0x8A], [CHR 0xE2, CHR 0x80, CHR 0xA8],
               [CHR 0xE2, CHR 0x80, CHR 0xA9], [CHR 0xE2, CHR 0x80, CHR 0xAF],
               [CHR 0xE2, CHR 0x81, CHR 0x9F], [CHR 0xE3, CHR 0x80, CHR 0x80]])"

fun trimLeft :: "string \<Rightarrow> string" where
  "trimLeft [] = []"
| "trimLeft (c # cs) =
     (if asciiSpace c then trimLeft cs
      else if spaceRune (c # take 1 cs) then trimLeft (drop 1 cs)
      else if spaceRune (c # take 2 cs) then trimLeft (drop 2 cs)
      else c # cs)"

text \<open>The same from the right end; the argument is the string reversed.\<close>

fun trimRightRev :: "string \<Rightarrow> string" where
  "trimRightRev [] = []"
| "trimRightRev (c # cs) =
     (if asciiSpace c then trimRightRev cs
      else if spaceRune (rev (c # take 1 cs)) then trimRightRev (drop 1 cs)
      else if spaceRune (rev (c # take 2 cs)) then trimRightRev (drop 2 cs)
      else c # cs)"

definition TrimSpace :: "string \<Rightarrow> string" where
  "TrimSpace s = rev (trimRightRev (rev (trimLeft s)))"

definition HasPrefix :: "string \<Rightarrow> string \<Rightarrow> bool" where
  "HasPrefix s p = (take (length p) s = p)"

definition TrimPrefix :: "string \<Rightarrow> string \<Rightarrow> string" where
  "TrimPrefix s p = (if HasPrefix s p then drop (length p) s else s)"

text \<open>\<open>strings.Index(s, "-")\<close>: the index of the first \<open>-\<close>, or \<open>-1\<close>.\<close>

definition IndexDash :: "string \<Rightarrow> int" where
  "IndexDash s =
     (if CHR ''-'' \<in> set s then int (length (takeWhile (\<lambda>c. c \<noteq> CHR ''-'') s)) else - 1)"

definition isDigit :: "char \<Rightarrow> bool" where
  "isDigit c = (48 \<le> (of_char c :: int) \<and> (of_char c :: int) \<le> 57)"

definition digitVal :: "char \<Rightarrow> int" where
  "digitVal c = of_char c - 48"

definition digitChar :: "int \<Rightarrow> char" where
  "digitChar d = char_of (48 + d)"

subsection \<open>\<open>strconv.FormatInt(i, 10)\<close> and \<open>strconv.ParseInt(s, 10, 64)\<close>\<close>

text \<open>The decimal digits of a number that is not negative.\<close>

function decimal :: "int \<Rightarrow> string" where
  "decimal n = (if n < 10 then [digitChar n] else decimal (n div 10) @ [digitChar (n mod 10)])"
  by pat_completeness auto
termination
  by (relation "measure nat") auto

declare decimal.simps [simp del]

definition FormatInt :: "int64 \<Rightarrow> string" where
  "FormatInt i =
     (if sint i < 0 then CHR ''-'' # decimal (- sint i) else decimal (sint i))"

definition parseDigits :: "string \<Rightarrow> int option" where
  "parseDigits s =
     (if s = [] \<or> \<not> list_all isDigit s then None
      else Some (foldl (\<lambda>acc c. 10 * acc + digitVal c) 0 s))"

text \<open>
  \<open>ParseInt\<close> takes an optional sign, then digits only (with an explicit base no
  underscore is accepted), and fails outside the range of \<open>int64\<close>. Only whether it
  fails is used by the caller, so the failure is \<open>None\<close>.
\<close>

definition ParseInt :: "string \<Rightarrow> int64 option" where
  "ParseInt s =
     (case s of
        [] \<Rightarrow> None
      | c # cs \<Rightarrow>
          (let neg = (c = CHR ''-'');
               ds = (if c = CHR ''+'' \<or> c = CHR ''-'' then cs else s)
           in case parseDigits ds of
                None \<Rightarrow> None
              | Some n \<Rightarrow>
                  if \<not> neg \<and> 2 ^ 63 \<le> n then None
                  else if neg \<and> 2 ^ 63 < n then None
                  else Some (word_of_int (if neg then - n else n))))"

subsection \<open>\<open>time.Parse("15:04", s)\<close>\<close>

text \<open>
  The layout element \<open>15\<close> reads one or two digits, \<open>04\<close> exactly two; the hour must
  be below 24, the minute below 60, and nothing may follow.
\<close>

definition getnum :: "string \<Rightarrow> bool \<Rightarrow> (int \<times> string) option" where
  "getnum s fixed =
     (case s of
        [] \<Rightarrow> None
      | c # cs \<Rightarrow>
          if \<not> isDigit c then None
          else (case cs of
                  [] \<Rightarrow> if fixed then None else Some (digitVal c, cs)
                | d # ds \<Rightarrow>
                    if \<not> isDigit d then (if fixed then None else Some (digitVal c, cs))
                    else Some (digitVal c * 10 + digitVal d, ds)))"

definition time_Parse_15_04 :: "string \<Rightarrow> (int \<times> int) option" where
  "time_Parse_15_04 v =
     (case getnum v False of
        None \<Rightarrow> None
      | Some (hour, rest) \<Rightarrow>
          if 24 \<le> hour then None
          else (case rest of
                  [] \<Rightarrow> None
                | c # rest1 \<Rightarrow>
                    if c \<noteq> CHR '':'' then None
                    else (case getnum rest1 True of
                            None \<Rightarrow> None
                          | Some (minute, rest2) \<Rightarrow>
                              if 60 \<le> minute then None
                              else if rest2 \<noteq> [] then None
                              else Some (hour, minute))))"

section \<open>Timetable entries and trigger events\<close>

record DayTimes =
  Data :: string
  Day :: go_int
  SuhoorEnd :: go_int
  Fajr :: go_int
  Dhuhr :: go_int
  Asr :: go_int
  Maghrib :: go_int
  Isha :: go_int

record eventSpec =
  Key :: string
  Title :: string
  Time :: Time
  IsNiyat :: bool
  UseIftar :: bool
  UseSuhoor :: bool

text \<open>A composite literal leaves the fields it does not name at their zero values.\<close>

definition eventSpec_zero :: eventSpec where
  "eventSpec_zero =
     \<lparr>Key = [], Title = [], Time = 0, IsNiyat = False, UseIftar = False, UseSuhoor = False\<rparr>"

definition reminderEventsForDay :: "Time \<Rightarrow> DayTimes \<Rightarrow> eventSpec list" where
  "reminderEventsForDay base day =
     [eventSpec_zero\<lparr>Key := ''suhoor'', Time := time_Add base (SuhoorEnd day * Minute), UseSuhoor := True\<rparr>,
      eventSpec_zero\<lparr>Key := ''fajr'', Time := time_Add base (Fajr day * Minute)\<rparr>,
      eventSpec_zero\<lparr>Key := ''dhuhr'', Time := time_Add base (Dhuhr day * Minute)\<rparr>,
      eventSpec_zero\<lparr>Key := ''asr'', Time := time_Add base (Asr day * Minute)\<rparr>,
      eventSpec_zero\<lparr>Key := ''maghrib'', Time := time_Add base (Maghrib day * Minute), UseIftar := True\<rparr>,
      eventSpec_zero\<lparr>Key := ''isha'', Time := time_Add base (Isha day * Minute)\<rparr>]"

text \<open>
  The six minute offsets of a day, in the order of the events, and whether an offset of
  \<open>m\<close> minutes, in nanoseconds, is a \<open>Duration\<close>.
\<close>

definition minuteOffsets :: "DayTimes \<Rightarrow> go_int list" where
  "minuteOffsets day = [SuhoorEnd day, Fajr day, Dhuhr day, Asr day, Maghrib day, Isha day]"

definition fitsDuration :: "go_int \<Rightarrow> bool" where
  "fitsDuration m = (minDuration \<le> sint m * nanosPerMinute \<and> sint m * nanosPerMinute \<le> maxDuration)"

text \<open>
  The fired-set is a Go \<open>map[string]bool\<close>, possibly \<open>nil\<close> (\<open>None\<close>). Reading
  \<open>sent[k]\<close> yields the stored flag, and \<open>false\<close> for a key that is absent.
\<close>

type_synonym sentMap = "(string \<rightharpoonup> bool) option"

definition sent_lookup :: "(string \<rightharpoonup> bool) \<Rightarrow> string \<Rightarrow> bool" where
  "sent_lookup m k = (case m k of None \<Rightarrow> False | Some b \<Rightarrow> b)"

definition shouldTriggerReminder :: "Time \<Rightarrow> eventSpec \<Rightarrow> sentMap \<Rightarrow> bool" where
  "shouldTriggerReminder now ev sent =
     (if (case sent of None \<Rightarrow> False | Some m \<Rightarrow> sent_lookup m (Key ev)) then False
      else (let remindAt = time_Add (Time ev) (- 30 * Minute)
            in \<not> time_Before now remindAt))"

text \<open>
  The set of keys a fired-set holds: the keys the loop has marked with
  \<open>sent[ev.Key] = true\<close>.
\<close>

definition firedSet :: "sentMap \<Rightarrow> string set" where
  "firedSet sent = (case sent of None \<Rightarrow> {} | Some m \<Rightarrow> {k. m k = Some True})"

section \<open>The \<open>float64\<close> arithmetic of the day number\<close>

text \<open>
  A finite \<open>float64\<close> is a rational number. An operation of Go on \<open>float64\<close> is the
  exact operation followed by rounding to the nearest number with a significand of 53
  bits, a tie going to the even significand. The exponent range is not modelled: every
  number that occurs below is zero or lies between 2^-47 and 2^22 in magnitude, far from
  the subnormal numbers and from overflow.
\<close>

definition pow2 :: "int \<Rightarrow> rat" where
  "pow2 e = (if 0 \<le> e then 2 ^ nat e else 1 / 2 ^ nat (- e))"

text \<open>The exponent \<open>e\<close> of a positive number \<open>x\<close>: \<open>2^e \<le> x < 2^(e+1)\<close>.\<close>

definition expo :: "rat \<Rightarrow> int" where
  "expo x =
     (let (p, q) = quotient_of x;
          t = bitlen p - bitlen q
      in if pow2 t \<le> x then t else t - 1)"

definition round_even :: "rat \<Rightarrow> int" where
  "round_even y =
     (let f = \<lfloor>y\<rfloor>;
          r = y - of_int f
      in if r < 1 / 2 then f
         else if 1 / 2 < r then f + 1
         else if even f then f else f + 1)"

definition float64 :: "rat \<Rightarrow> rat" where
  "float64 x =
     (if x = 0 then 0
      else (let u = pow2 (expo \<bar>x\<bar> - 52) in of_int (round_even (x / u)) * u))"

text \<open>Go's integer division truncates towards zero; the remainder has the sign of the dividend.\<close>

definition go_quot :: "int \<Rightarrow> int \<Rightarrow> int" where
  "go_quot a b = sgn a * sgn b * (\<bar>a\<bar> div \<bar>b\<bar>)"

definition go_rem :: "int \<Rightarrow> int \<Rightarrow> int" where
  "go_rem a b = a - b * go_quot a b"

text \<open>
  \<open>Duration.Hours\<close>:
  \<^verbatim>\<open>hour := d / Hour; nsec := d % Hour; return float64(hour) + float64(nsec)/(60*60*1e9)\<close>
\<close>

definition Duration_Hours :: "Duration \<Rightarrow> rat" where
  "Duration_Hours d =
     (let hour = go_quot (sint d) (sint Hour);
          nsec = go_rem (sint d) (sint Hour)
      in float64 (float64 (of_int hour) + float64 (float64 (of_int nsec) / 3600000000000)))"

section \<open>The day of the cycle\<close>

text \<open>
  \<open>int(math.Floor(now.Sub(start).Hours()/24.0)) + 1\<close>: the hours elapsed, a
  \<open>float64\<close>, are divided by 24 in \<open>float64\<close> and rounded down. The result is far
  inside the range of \<open>int\<close>, so the conversion is exact.
\<close>

definition dayIndex :: "Time \<Rightarrow> Time \<Rightarrow> int" where
  "dayIndex start now = \<lfloor>float64 (Duration_Hours (time_Sub now start) / 24)\<rfloor> + 1"

text \<open>
  Two names for the proofs about the day number: for a duration of \<open>d\<close> nanoseconds,
  the sum that \<open>Hours\<close> rounds (its two conversions from integers are exact, lemma
  \<open>Duration_Hours_hoursSum\<close>), and the quotient that \<open>math.Floor\<close> is applied to.
\<close>

definition nanosPerHour :: int where
  "nanosPerHour = 3600000000000"

definition hoursSum :: "int \<Rightarrow> rat" where
  "hoursSum d = of_int (go_quot d nanosPerHour) + float64 (of_int (go_rem d nanosPerHour) / 3600000000000)"

definition dayQuotient :: "int \<Rightarrow> rat" where
  "dayQuotient d = float64 (float64 (hoursSum d) / 24)"

definition currentDaySchedule :: "DayTimes list \<Rightarrow> Time \<Rightarrow> Time \<Rightarrow> DayTimes option" where
  "currentDaySchedule days start now =
     (let i = dayIndex start now
      in if i < 0 \<or> int (length days) < i then None
         else find (\<lambda>d. sint (Day d) = i) days)"

text \<open>
  What one round of \<open>ReminderManager.loop\<close> does once the cycle has begun: without a
  schedule it sends the out-of-range notice and sleeps six hours, with one it runs the
  day's polling loop.
\<close>

datatype loopBranch = OutOfRange | RunDay DayTimes

definition loop_branch :: "DayTimes list \<Rightarrow> Time \<Rightarrow> Time \<Rightarrow> loopBranch" where
  "loop_branch calendar ramadanStart now =
     (case currentDaySchedule calendar ramadanStart now of
        None \<Rightarrow> OutOfRange
      | Some day \<Rightarrow> RunDay day)"

section \<open>Regional calendars\<close>

fun cleanClock_loop :: "string \<Rightarrow> string" where
  "cleanClock_loop [] = []"
| "cleanClock_loop (r # rs) =
     (if r = CHR ''-'' then []
      else if isDigit r \<or> r = CHR '':'' then r # cleanClock_loop rs
      else cleanClock_loop rs)"

definition cleanClock :: "string \<Rightarrow> string" where
  "cleanClock raw = cleanClock_loop (TrimSpace raw)"

text \<open>\<open>mustClockToMinutes\<close> ends the process on a parse error: \<open>None\<close>.\<close>

definition mustClockToMinutes :: "string \<Rightarrow> go_int option" where
  "mustClockToMinutes raw =
     (case time_Parse_15_04 (cleanClock raw) of
        None \<Rightarrow> None
      | Some (h, m) \<Rightarrow> Some (word_of_int (h * 60 + m)))"

definition applyOffset :: "DayTimes \<Rightarrow> go_int \<Rightarrow> DayTimes" where
  "applyOffset day offset =
     (let adjust = (\<lambda>val. let out = val + offset in if sint out < 0 then 0 else out)
      in \<lparr>Data = Data day, Day = Day day,
          SuhoorEnd = adjust (SuhoorEnd day), Fajr = adjust (Fajr day),
          Dhuhr = adjust (Dhuhr day), Asr = adjust (Asr day),
          Maghrib = adjust (Maghrib day), Isha = adjust (Isha day)\<rparr>)"

definition baseTable :: "(string \<times> go_int \<times> string \<times> string \<times> string \<times> string \<times> string) list" where
  "baseTable =
     [(''18.02.2026'', 0, ''05:42'', ''12:41'', ''15:40'', ''18:13'', ''19:29''),
      (''19.02.2026'', 1, ''05:41'', ''12:41'', ''15:40'', ''18:14'', ''19:30''),
      (''20.02.2026'', 2, ''05:40'', ''12:40'', ''15:41'', ''18:15'', ''19:31''),
      (''21.02.2026'', 3, ''05:39'', ''12:39'', ''15:41'', ''18:16'', ''19:32''),
      (''22.02.2026'', 4, ''05:38'', ''12:38'', ''15:42'', ''18:17'', ''19:33''),
      (''23.02.2026'', 5, ''05:37'', ''12:38'', ''15:43'', ''18:18'', ''19:34''),
      (''24.02.2026'', 6, ''05:35'', ''12:38'', ''15:44'', ''18:20'', ''19:35''),
      (''25.02.2026'', 7, ''05:34'', ''12:38'', ''15:44'', ''18:21'', ''19:36''),
      (''26.02.2026'', 8, ''05:32'', ''12:38'', ''15:45'', ''18:22'', ''19:37''),
      (''27.02.2026'', 9, ''05:31'', ''12:38'', ''15:46'', ''18:23'', ''19:38''),
      (''28.02.2026'', 10, ''05:29'', ''12:37'', ''15:47'', ''18:24'', ''19:39''),
      (''01.03.2026'', 11, ''05:28'', ''12:37'', ''15:48'', ''18:26'', ''19:41''),
      (''02.03.2026'', 12, ''05:27'', ''12:37'', ''15:48'', ''18:27'', ''19:42''),
      (''03.03.2026'', 13, ''05:26'', ''12:37'', ''15:49'', ''18:28'', ''19:43''),
      (''04.03.2026'', 14, ''05:24'', ''12:37'', ''15:50'', ''18:29'', ''19:44''),
      (''05.03.2026'', 15, ''05:22'', ''12:36'', ''15:50'', ''18:30'', ''19:45''),
      (''06.03.2026'', 16, ''05:20'', ''12:36'', ''15:51'', ''18:31'', ''19:46''),
      (''07.03.2026'', 17, ''05:19'', ''12:36'', ''15:51'', ''18:32'', ''19:47''),
      (''08.03.2026'', 18, ''05:17'', ''12:36'', ''15:52'', ''18:33'', ''19:48''),
      (''09.03.2026'', 19, ''05:16'', ''12:35'', ''15:53'', ''18:34'', ''19:49''),
      (''10.03.2026'', 20, ''05:14'', ''12:35'', ''15:53'', ''18:35'', ''19:50''),
      (''11.03.2026'', 21, ''05:13'', ''12:35'', ''15:54'', ''18:36'', ''19:51''),
      (''12.03.2026'', 22, ''05:11'', ''12:38'', ''15:55'', ''18:37'', ''19:52''),
      (''13.03.2026'', 23, ''05:10'', ''12:38'', ''15:55'', ''18:38'', ''19:53''),
      (''14.03.2026'', 24, ''05:08'', ''12:38'', ''15:56'', ''18:39'', ''19:54''),
      (''15.03.2026'', 25, ''05:07'', ''12:38'', ''15:56'', ''18:40'', ''19:55''),
      (''16.03.2026'', 26, ''05:05'', ''12:38'', ''15:57'', ''18:41'', ''19:56''),
      (''17.03.2026'', 27, ''05:04'', ''12:37'', ''15:57'', ''18:42'', ''19:57''),
      (''18.03.2026'', 28, ''05:02'', ''12:36'', ''15:57'', ''18:43'', ''19:58''),
      (''19.03.2026'', 29, ''05:01'', ''12:35'', ''15:58'', ''18:44'', ''19:59''),
      (''20.03.2026'', 30, ''05:00'', ''12:34'', ''15:58'', ''18:45'', ''20:00'')]"

definition baseDay ::
  "string \<times> go_int \<times> string \<times> string \<times> string \<times> string \<times> string \<Rightarrow> DayTimes option" where
  "baseDay d =
     (case d of (date, dayno, f, dh, a, m, i) \<Rightarrow>
        (case mustClockToMinutes f of None \<Rightarrow> None | Some fajr \<Rightarrow>
        (case mustClockToMinutes dh of None \<Rightarrow> None | Some dhuhr \<Rightarrow>
        (case mustClockToMinutes a of None \<Rightarrow> None | Some asr \<Rightarrow>
        (case mustClockToMinutes m of None \<Rightarrow> None | Some maghrib \<Rightarrow>
        (case mustClockToMinutes i of None \<Rightarrow> None | Some isha \<Rightarrow>
           Some \<lparr>Data = date, Day = dayno, SuhoorEnd = fajr, Fajr = fajr, Dhuhr = dhuhr,
                 Asr = asr, Maghrib = maghrib, Isha = isha\<rparr>))))))"

definition baseDays :: "DayTimes list option" where
  "baseDays = those (map baseDay baseTable)"

text \<open>
  The region names are the UTF-8 bytes of the Cyrillic names (Dushanbe, Asht, Ayni, Kulob,
  Rasht, Hamadoni, Khujand, Istaravshan, Isfara, Konibodom, Khorug, Murgob, Sh. Shohin,
  Muminobod, Panjakent, Shahritus, N. Khusrav, Tursunzoda). The table is a map literal,
  whose keys are distinct; it is kept as the list of its entries.
\<close>

definition offsets :: "(string \<times> go_int) list" where
  "offsets =
     [([CHR 0xD0, CHR 0x94, CHR 0xD1, CHR 0x83, CHR 0xD1, CHR 0x88, CHR 0xD0, CHR 0xB0, CHR 0xD0, CHR 0xBD, CHR 0xD0, CHR 0xB1, CHR 0xD0, CHR 0xB5], 0),
      ([CHR 0xD0, CHR 0x90, CHR 0xD1, CHR 0x88, CHR 0xD1, CHR 0x82], - 6),
      ([CHR 0xD0, CHR 0x90, CHR 0xD0, CHR 0xB9, CHR 0xD0, CHR 0xBD, CHR 0xD0, CHR 0xB8], 1),
      ([CHR 0xD0, CHR 0x9A, CHR 0xD1, CHR 0x83, CHR 0xD0, CHR 0xBB, CHR 0xD0, CHR 0xBE, CHR 0xD0, CHR 0xB1], - 4),
      ([CHR 0xD0, CHR 0xA0, CHR 0xD0, CHR 0xB0, CHR 0xD1, CHR 0x88, CHR 0xD1, CHR 0x82], - 6),
      ([CHR 0xD0, CHR 0xA5, CHR 0xD0, CHR 0xB0, CHR 0xD0, CHR 0xBC, CHR 0xD0, CHR 0xB0, CHR 0xD0, CHR 0xB4, CHR 0xD0, CHR 0xBE, CHR 0xD0, CHR 0xBD, CHR 0xD0, CHR 0xB8], - 3),
      ([CHR 0xD0, CHR 0xA5, CHR 0xD1, CHR 0x83, CHR 0xD0, CHR 0xB4, CHR 0xD0, CHR 0xB6, CHR 0xD0, CHR 0xB0, CHR 0xD0, CHR 0xBD, CHR 0xD0, CHR 0xB4], - 3),
      ([CHR 0xD0, CHR 0x98, CHR 0xD1, CHR 0x81, CHR 0xD1, CHR 0x82, CHR 0xD0, CHR 0xB0, CHR 0xD1, CHR 0x80, CHR 0xD0, CHR 0xB0, CHR 0xD0, CHR 0xB2, CHR 0xD1, CHR 0x88, CHR 0xD0, CHR 0xB0, CHR 0xD0, CHR 0xBD], - 1),
      ([CHR 0xD0, CHR 0x98, CHR 0xD1, CHR 0x81, CHR 0xD1, CHR 0x84, CHR 0xD0, CHR 0xB0, CHR 0xD1, CHR 0x80, CHR 0xD0, CHR 0xB0], - 7),
      ([CHR 0xD0, CHR 0x9A, CHR 0xD0, CHR 0xBE, CHR 0xD0, CHR 0xBD, CHR 0xD0, CHR 0xB8, CHR 0xD0, CHR 0xB1, CHR 0xD0, CHR 0xBE, CHR 0xD0, CHR 0xB4, CHR 0xD0, CHR 0xBE, CHR 0xD0, CHR 0xBC], - 6),
      ([CHR 0xD0, CHR 0xA5, CHR 0xD0, CHR 0xBE, CHR 0xD1, CHR 0x80, CHR 0xD1, CHR 0x83, CHR 0xD0, CHR 0xB3], - 11),
      ([CHR 0xD0, CHR 0x9C, CHR 0xD1, CHR 0x83, CHR 0xD1, CHR 0x80, CHR 0xD0, CHR 0xB3, CHR 0xD0, CHR 0xBE, CHR 0xD0, CHR 0xB1], - 20),
      ([CHR 0xD0, CHR 0xA8, CHR 0x2E, CHR 0x20, CHR 0xD0, CHR 0xA8, CHR 0xD0, CHR 0xBE, CHR 0xD1, CHR 0x85, CHR 0xD0, CHR 0xB8, CHR 0xD0, CHR 0xBD], - 5),
      ([CHR 0xD0, CHR 0x9C, CHR 0xD1, CHR 0x83, CHR 0xD1, CHR 0x8A, CHR 0xD0, CHR 0xBC, CHR 0xD0, CHR 0xB8, CHR 0xD0, CHR 0xBD, CHR 0xD0, CHR 0xBE, CHR 0xD0, CHR 0xB1, CHR 0xD0, CHR 0xBE, CHR 0xD0, CHR 0xB4], - 3),
      ([CHR 0xD0, CHR 0x9F, CHR 0xD0, CHR 0xB0, CHR 0xD0, CHR 0xBD, CHR 0xD1, CHR 0x87, CHR 0xD0, CHR 0xB0, CHR 0xD0, CHR 0xBA, CHR 0xD0, CHR 0xB5, CHR 0xD0, CHR 0xBD, CHR 0xD1, CHR 0x82], 5),
      ([CHR 0xD0, CHR 0xA8, CHR 0xD0, CHR 0xB0, CHR 0xD1, CHR 0x85, CHR 0xD1, CHR 0x80, CHR 0xD0, CHR 0xB8, CHR 0xD1, CHR 0x82, CHR 0xD1, CHR 0x83, CHR 0xD1, CHR 0x81], 3),
      ([CHR 0xD0, CHR 0x9D, CHR 0x2E, CHR 0x20, CHR 0xD0, CHR 0xA5, CHR 0xD1, CHR 0x83, CHR 0xD1, CHR 0x81, CHR 0xD1, CHR 0x80, CHR 0xD0, CHR 0xB0, CHR 0xD0, CHR 0xB2], 4),
      ([CHR 0xD0, CHR 0xA2, CHR 0xD1, CHR 0x83, CHR 0xD1, CHR 0x80, CHR 0xD1, CHR 0x81, CHR 0xD1, CHR 0x83, CHR 0xD0, CHR 0xBD, CHR 0xD0, CHR 0xB7, CHR 0xD0, CHR 0xBE, CHR 0xD0, CHR 0xB4, CHR 0xD0, CHR 0xB0], 3)]"

text \<open>
  \<open>buildCalendars\<close>: one calendar per region, each day of the base timetable shifted by
  the region's offset. \<open>None\<close> stands for the fatal exit of \<open>mustClockToMinutes\<close>.
\<close>

definition buildCalendars :: "(string \<times> DayTimes list) list option" where
  "buildCalendars =
     (case baseDays of
        None \<Rightarrow> None
      | Some bds \<Rightarrow>
          Some (map (\<lambda>(region, offset). (region, map (\<lambda>bd. applyOffset bd offset) bds)) offsets))"

text \<open>
  The base timetable as a list, and the calendar found under a region name (the lookup
  \<open>calendars[region]\<close>, empty where the map has no such key).
\<close>

definition baseDaysList :: "DayTimes list" where
  "baseDaysList = (case baseDays of None \<Rightarrow> [] | Some bds \<Rightarrow> bds)"

definition calendarOf :: "string \<Rightarrow> DayTimes list" where
  "calendarOf region =
     (case buildCalendars of
        None \<Rightarrow> []
      | Some calendars \<Rightarrow> (case map_of calendars region of None \<Rightarrow> [] | Some days \<Rightarrow> days))"

text \<open>
  The entry \<open>d\<close> is the base entry \<open>bd\<close> with \<open>offset\<close> minutes added to each of the
  six times, the date string and the day number being those of \<open>bd\<close>.
\<close>

definition shiftedBy :: "DayTimes \<Rightarrow> go_int \<Rightarrow> DayTimes \<Rightarrow> bool" where
  "shiftedBy bd offset d =
     (Data d = Data bd \<and> Day d = Day bd
      \<and> sint (SuhoorEnd d) = sint (SuhoorEnd bd) + sint offset
      \<and> sint (Fajr d) = sint (Fajr bd) + sint offset
      \<and> sint (Dhuhr d) = sint (Dhuhr bd) + sint offset
      \<and> sint (Asr d) = sint (Asr bd) + sint offset
      \<and> sint (Maghrib d) = sint (Maghrib bd) + sint offset
      \<and> sint (Isha d) = sint (Isha bd) + sint offset)"

text \<open>The times of the base timetable lie between 05:00 and 20:00.\<close>

definition minutesOfDay :: "go_int \<Rightarrow> bool" where
  "minutesOfDay m = (300 \<le> sint m \<and> sint m \<le> 1200)"

section \<open>Errors, the file system and the library\<close>

datatype error = ErrNotExist | ErrOther string

text \<open>
  The durable storage is a map from path names to what is found there. \<open>Denied\<close> is a
  name that can be neither read nor written. Reading, writing and renaming fail where the
  operating system's calls would; parent directories are not tracked.
\<close>

datatype node = Missing | Denied | Dir | File bytes

type_synonym fs = "string \<Rightarrow> node"

definition os_ReadFile :: "fs \<Rightarrow> string \<Rightarrow> error + bytes" where
  "os_ReadFile disk name =
     (case disk name of
        File raw \<Rightarrow> Inr raw
      | Missing \<Rightarrow> Inl ErrNotExist
      | _ \<Rightarrow> Inl (ErrOther ''read''))"

definition os_IsNotExist :: "error \<Rightarrow> bool" where
  "os_IsNotExist err = (err = ErrNotExist)"

definition os_MkdirAll :: "fs \<Rightarrow> string \<Rightarrow> error + fs" where
  "os_MkdirAll disk name =
     (case disk name of
        Dir \<Rightarrow> Inr disk
      | Missing \<Rightarrow> Inr (disk(name := Dir))
      | _ \<Rightarrow> Inl (ErrOther ''mkdir''))"

definition os_WriteFile :: "fs \<Rightarrow> string \<Rightarrow> bytes \<Rightarrow> error + fs" where
  "os_WriteFile disk name raw =
     (case disk name of
        Missing \<Rightarrow> Inr (disk(name := File raw))
      | File _ \<Rightarrow> Inr (disk(name := File raw))
      | _ \<Rightarrow> Inl (ErrOther ''write''))"

definition os_Rename :: "fs \<Rightarrow> string \<Rightarrow> string \<Rightarrow> error + fs" where
  "os_Rename disk old new =
     (case disk old of
        File raw \<Rightarrow>
          (case disk new of
             Missing \<Rightarrow> Inr (disk(old := Missing, new := File raw))
           | File _ \<Rightarrow> Inr (disk(old := Missing, new := File raw))
           | _ \<Rightarrow> Inl (ErrOther ''rename''))
      | _ \<Rightarrow> Inl (ErrOther ''rename''))"

record UserSettings =
  Language :: string
  Region :: string
  Notifications :: bool
  RegionSelected :: bool

definition UserSettings_zero :: UserSettings where
  "UserSettings_zero = \<lparr>Language = [], Region = [], Notifications = False, RegionSelected = False\<rparr>"

text \<open>
  A Go map that the code ranges over is the list of its entries, in the order of the
  iteration (which Go leaves open); \<open>map_of\<close> reads it and \<open>AList.update\<close> assigns to a
  key. The keys of a Go map are distinct.
\<close>

record persistedStateData =
  Users :: "(string \<times> UserSettings) list"

text \<open>
  The library functions whose code is not part of the repository and is not modelled above
  are parameters: \<open>strings.ToLower\<close>, \<open>json.MarshalIndent\<close> and \<open>json.Unmarshal\<close> at
  the type \<open>persistedStateData\<close>, and \<open>filepath.Dir\<close>.
\<close>

record golib =
  strings_ToLower :: "string \<Rightarrow> string"
  json_MarshalIndent :: "persistedStateData \<Rightarrow> error + bytes"
  json_Unmarshal :: "bytes \<Rightarrow> error + persistedStateData"
  filepath_Dir :: "string \<Rightarrow> string"

section \<open>Languages\<close>

definition normalizeLang :: "golib \<Rightarrow> string \<Rightarrow> string" where
  "normalizeLang L raw =
     (let lang = strings_ToLower L (TrimSpace raw);
          lang = map (\<lambda>c. if c = CHR ''_'' then CHR ''-'' else c) lang;
          idx = IndexDash lang;
          lang = (if 0 < idx then take (nat idx) lang else lang)
      in if lang \<in> set [''tg'', ''tj'', ''tjk'', ''tajik'', ''taj''] then ''tg''
         else if lang \<in> set [''ru'', ''rus'', ''russian''] then ''ru''
         else if lang \<in> set [''en'', ''eng'', ''english''] then ''en''
         else if lang \<in> set [''uz'', ''uzb'', ''ozbek'', [CHR ''o'', CHR 0x27, CHR ''z'', CHR ''b'', CHR ''e'', CHR ''k'']] then ''uz''
         else [])"

section \<open>The subscription store\<close>

text \<open>
  The store maps a chat to a pointer to its record. Every writer stores a pointer to a
  fresh record, so no entry is \<open>nil\<close>, and the map is modelled as holding the records
  themselves; the guards against \<open>nil\<close> entries have no counterpart.
\<close>

record StateStore =
  users :: "(int64 \<times> UserSettings) list"
  persistPath :: string

definition snapshotLocked :: "StateStore \<Rightarrow> (string \<times> UserSettings) list" where
  "snapshotLocked s =
     fold (\<lambda>(chatID, settings) out. AList.update (FormatInt chatID) settings out) (users s) []"

text \<open>
  \<open>writeStateSnapshot\<close> returns its error and leaves the file system as far as it got.
\<close>

definition writeStateSnapshot ::
  "golib \<Rightarrow> string \<Rightarrow> (string \<times> UserSettings) list \<Rightarrow> fs \<Rightarrow> error option \<times> fs" where
  "writeStateSnapshot L path0 snapshot disk =
     (let path = TrimSpace path0
      in if path = [] then (None, disk)
         else (case json_MarshalIndent L \<lparr>Users = snapshot\<rparr> of
                 Inl err \<Rightarrow> (Some err, disk)
               | Inr raw \<Rightarrow>
                   (let dir = filepath_Dir L path
                    in case (if dir \<noteq> ''.'' \<and> dir \<noteq> [] then os_MkdirAll disk dir else Inr disk) of
                         Inl err \<Rightarrow> (Some err, disk)
                       | Inr disk1 \<Rightarrow>
                           (let tmp = path @ ''.tmp''
                            in case os_WriteFile disk1 tmp raw of
                                 Inl err \<Rightarrow> (Some err, disk1)
                               | Inr disk2 \<Rightarrow>
                                   (case os_Rename disk2 tmp path of
                                      Inl err \<Rightarrow> (Some err, disk2)
                                    | Inr disk3 \<Rightarrow> (None, disk3))))))"

definition loadFromDisk :: "golib \<Rightarrow> StateStore \<Rightarrow> fs \<Rightarrow> error + StateStore" where
  "loadFromDisk L s disk =
     (let path = TrimSpace (persistPath s)
      in if path = [] then Inr s
         else (case os_ReadFile disk path of
                 Inl err \<Rightarrow> if os_IsNotExist err then Inr s else Inl err
               | Inr raw \<Rightarrow>
                   if length (TrimSpace raw) = 0 then Inr s
                   else (case json_Unmarshal L raw of
                           Inl err \<Rightarrow> Inl err
                         | Inr data \<Rightarrow>
                             Inr (s\<lparr>users :=
                                    fold (\<lambda>(key, settings) us.
                                            case ParseInt key of
                                              None \<Rightarrow> us
                                            | Some chatID \<Rightarrow> AList.update chatID settings us)
                                         (Users data) (users s)\<rparr>))))"

definition newStateStore :: "golib \<Rightarrow> string \<Rightarrow> fs \<Rightarrow> error + StateStore" where
  "newStateStore L path disk =
     (let store = \<lparr>users = [], persistPath = TrimSpace path\<rparr>
      in case loadFromDisk L store disk of
           Inl err \<Rightarrow> Inl err
         | Inr store1 \<Rightarrow> Inr store1)"

text \<open>
  The accessors. \<open>Get\<close> returns the record and the store, which has gained an empty
  record where the chat had none. The setters write the snapshot after the update; a
  failure to write is logged and changes nothing else.
\<close>

definition Get :: "StateStore \<Rightarrow> int64 \<Rightarrow> UserSettings \<times> StateStore" where
  "Get s chatID =
     (case map_of (users s) chatID of
        None \<Rightarrow> (UserSettings_zero, s\<lparr>users := AList.update chatID UserSettings_zero (users s)\<rparr>)
      | Some settings \<Rightarrow> (settings, s))"

definition SetRegion :: "golib \<Rightarrow> StateStore \<Rightarrow> int64 \<Rightarrow> string \<Rightarrow> fs \<Rightarrow> StateStore \<times> fs" where
  "SetRegion L s chatID region disk =
     (let settings = (case map_of (users s) chatID of None \<Rightarrow> UserSettings_zero | Some x \<Rightarrow> x);
          settings = settings\<lparr>Region := region, Notifications := True, RegionSelected := True\<rparr>;
          s1 = s\<lparr>users := AList.update chatID settings (users s)\<rparr>;
          snapshot = snapshotLocked s1;
          path = persistPath s1
      in (s1, snd (writeStateSnapshot L path snapshot disk)))"

definition SetLanguage :: "golib \<Rightarrow> StateStore \<Rightarrow> int64 \<Rightarrow> string \<Rightarrow> fs \<Rightarrow> StateStore \<times> fs" where
  "SetLanguage L s chatID lang disk =
     (let settings = (case map_of (users s) chatID of None \<Rightarrow> UserSettings_zero | Some x \<Rightarrow> x);
          settings = settings\<lparr>Language := normalizeLang L lang\<rparr>;
          s1 = s\<lparr>users := AList.update chatID settings (users s)\<rparr>;
          snapshot = snapshotLocked s1;
          path = persistPath s1
      in (s1, snd (writeStateSnapshot L path snapshot disk)))"

definition SetNotifications :: "golib \<Rightarrow> StateStore \<Rightarrow> int64 \<Rightarrow> bool \<Rightarrow> fs \<Rightarrow> StateStore \<times> fs" where
  "SetNotifications L s chatID enabled disk =
     (let settings = (case map_of (users s) chatID of None \<Rightarrow> UserSettings_zero | Some x \<Rightarrow> x);
          settings = settings\<lparr>Notifications := enabled\<rparr>;
          s1 = s\<lparr>users := AList.update chatID settings (users s)\<rparr>;
          snapshot = snapshotLocked s1;
          path = persistPath s1
      in (s1, snd (writeStateSnapshot L path snapshot disk)))"

definition ActiveNotificationRegions :: "StateStore \<Rightarrow> (int64 \<times> string) list" where
  "ActiveNotificationRegions s =
     fold (\<lambda>(chatID, settings) result.
             (let region = TrimSpace (Region settings)
              in if \<not> Notifications settings \<or> region = [] then result
                 else AList.update chatID region result))
          (users s) []"

text \<open>The region under which a subscriber is active, if any.\<close>

definition activeRegion :: "UserSettings \<Rightarrow> string option" where
  "activeRegion u =
     (if Notifications u \<and> TrimSpace (Region u) \<noteq> [] then Some (TrimSpace (Region u)) else None)"

text \<open>
  What the persistence relies on from the JSON library, for one snapshot: if the snapshot
  can be encoded, the text is not blank and decodes to a map with the same entries.
\<close>

definition json_roundtrips :: "golib \<Rightarrow> (string \<times> UserSettings) list \<Rightarrow> bool" where
  "json_roundtrips L snapshot =
     (case json_MarshalIndent L \<lparr>Users = snapshot\<rparr> of
        Inl err \<Rightarrow> True
      | Inr raw \<Rightarrow>
          TrimSpace raw \<noteq> [] \<and>
          (case json_Unmarshal L raw of
             Inl err \<Rightarrow> False
           | Inr d \<Rightarrow> distinct (map fst (Users d)) \<and> set (Users d) = set snapshot))"

section \<open>The bot's handlers, as far as they touch the store\<close>

text \<open>
  Sending messages and starting or stopping a reminder loop do not touch the store and are
  left out. A handler takes and returns the store and the file system.
\<close>

definition userLang :: "golib \<Rightarrow> StateStore \<Rightarrow> int64 \<Rightarrow> string \<times> StateStore" where
  "userLang L s chatID =
     (let (settings, s1) = Get s chatID;
          lang = normalizeLang L (Language settings)
      in (if lang = [] then ''tg'' else lang, s1))"

definition promptLanguage :: "golib \<Rightarrow> StateStore \<Rightarrow> int64 \<Rightarrow> StateStore" where
  "promptLanguage L s chatID = snd (userLang L s chatID)"

definition promptRegion :: "golib \<Rightarrow> StateStore \<Rightarrow> int64 \<Rightarrow> string \<Rightarrow> StateStore" where
  "promptRegion L s chatID message =
     (if TrimSpace message = [] then snd (userLang L s chatID) else s)"

definition sendHelp :: "golib \<Rightarrow> StateStore \<Rightarrow> int64 \<Rightarrow> StateStore" where
  "sendHelp L s chatID = snd (userLang L s chatID)"

definition requireLanguage ::
  "golib \<Rightarrow> StateStore \<times> fs \<Rightarrow> int64 \<Rightarrow> (string \<times> bool) \<times> (StateStore \<times> fs)" where
  "requireLanguage L w chatID =
     (let (s, disk) = w;
          (settings, s1) = Get s chatID;
          lang = normalizeLang L (Language settings)
      in if lang = [] then (([], False), (promptLanguage L s1 chatID, disk))
         else if lang \<noteq> Language settings then ((lang, True), SetLanguage L s1 chatID lang disk)
         else ((lang, True), (s1, disk)))"

text \<open>
  \<open>Bot.setNotifications\<close>; the argument \<open>msg\<close> stands for the localized text
  \<open>tr(lang, "need_region_notify")\<close>, whose table is not modelled.
\<close>

definition Bot_setNotifications ::
  "golib \<Rightarrow> string \<Rightarrow> StateStore \<times> fs \<Rightarrow> int64 \<Rightarrow> bool \<Rightarrow> StateStore \<times> fs" where
  "Bot_setNotifications L msg w chatID enabled =
     (let (s, disk) = w;
          (settings, s1) = Get s chatID;
          (lang, s2) = userLang L s1 chatID
      in if Region settings = [] then (promptRegion L s2 chatID msg, disk)
         else SetNotifications L s2 chatID enabled disk)"

text \<open>
  \<open>Bot.handleCallback\<close> for the callback data \<open>cbData\<close> of a query in chat
  \<open>chatID\<close>; \<open>msg\<close> stands for \<open>tr(lang, "choose_region")\<close>.
\<close>

definition handleCallback ::
  "golib \<Rightarrow> string \<Rightarrow> StateStore \<times> fs \<Rightarrow> string \<Rightarrow> int64 \<Rightarrow> StateStore \<times> fs" where
  "handleCallback L msg w cbData chatID =
     (if cbData = [] then w
      else if HasPrefix cbData ''lang:'' then
        (let lang = normalizeLang L (TrimPrefix cbData ''lang:'');
             lang = (if lang = [] then ''tg'' else lang);
             (s1, disk1) = SetLanguage L (fst w) chatID lang (snd w);
             (settings, s2) = Get s1 chatID
         in if TrimSpace (Region settings) = [] then (promptRegion L s2 chatID msg, disk1)
            else (sendHelp L s2 chatID, disk1))
      else if HasPrefix cbData ''region:'' then
        (let ((lang, ok), w1) = requireLanguage L w chatID
         in if \<not> ok then w1
            else (let region = TrimPrefix cbData ''region:''
                  in SetRegion L (fst w1) chatID region (snd w1)))
      else w)"

text \<open>The invariant of the subscription record.\<close>

definition enabledHasRegion :: "StateStore \<Rightarrow> bool" where
  "enabledHasRegion s = list_all (\<lambda>(chatID, settings). Notifications settings \<longrightarrow> Region settings \<noteq> []) (users s)"

section \<open>Start-up\<close>

text \<open>
  The part of \<open>main\<close> that sets the store up, given the value of the environment
  variable \<open>STATE_FILE\<close>: a failure of \<open>newStateStore\<close> ends the process
  (\<open>log.Fatalf\<close>); otherwise the reminder loops of the active subscriptions are
  restarted.
\<close>

datatype startup = Fatal error | Started StateStore "(int64 \<times> string) list"

definition main_startup :: "golib \<Rightarrow> string \<Rightarrow> fs \<Rightarrow> startup" where
  "main_startup L envStateFile disk =
     (let statePath = TrimSpace envStateFile;
          statePath = (if statePath = [] then ''state.json'' else statePath)
      in case newStateStore L statePath disk of
           Inl err \<Rightarrow> Fatal err
         | Inr state \<Rightarrow> Started state (ActiveNotificationRegions state))"

section \<open>The image cache\<close>

record cachedImage =
  data :: bytes
  expiresAt :: Time

type_synonym imageCache = "(string, cachedImage) fmap"

text \<open>
  \<open>getOrBuild\<close> on the cache \<open>c\<close> (\<open>None\<close> is the \<open>nil\<close> pointer). \<open>build\<close> is
  what the call \<open>build()\<close> returns, should the function make it; \<open>now0\<close>, \<open>now1\<close> and
  \<open>now2\<close> are the three readings of the clock, in the order of the source. The result
  holds the returned pair, the cache afterwards and how often \<open>build()\<close> was called. The
  copies the source makes of the byte slices keep the stored bytes from later writes by
  the caller; values are not shared here.
\<close>

record getOrBuildResult =
  ret :: "error + bytes"
  cache :: "imageCache option"
  builds :: nat

definition sweep :: "Time \<Rightarrow> imageCache \<Rightarrow> imageCache" where
  "sweep now items =
     fmfilter (\<lambda>k. case fmlookup items k of
                      None \<Rightarrow> False
                    | Some v \<Rightarrow> \<not> time_After now (expiresAt v)) items"

definition getOrBuild ::
  "imageCache option \<Rightarrow> string \<Rightarrow> Duration \<Rightarrow> error + bytes \<Rightarrow> Time \<Rightarrow> Time \<Rightarrow> Time \<Rightarrow> getOrBuildResult" where
  "getOrBuild c key ttl build now0 now1 now2 =
     (case c of
        None \<Rightarrow> \<lparr>ret = build, cache = c, builds = 1\<rparr>
      | Some items \<Rightarrow>
          if sint ttl \<le> 0 then \<lparr>ret = build, cache = c, builds = 1\<rparr>
          else (case (case fmlookup items key of
                        None \<Rightarrow> None
                      | Some cached \<Rightarrow> if time_Before now0 (expiresAt cached) then Some cached else None) of
                  Some cached \<Rightarrow> \<lparr>ret = Inr (data cached), cache = c, builds = 0\<rparr>
                | None \<Rightarrow>
                    (case build of
                       Inl err \<Rightarrow> \<lparr>ret = Inl err, cache = c, builds = 1\<rparr>
                     | Inr d \<Rightarrow>
                         (let items1 = fmupd key \<lparr>data = d, expiresAt = time_Add now1 ttl\<rparr> items;
                              items2 = (if 512 < fcard (fmdom items1) then sweep now2 items1 else items1)
                          in \<lparr>ret = Inr d, cache = Some items2, builds = 1\<rparr>))))"

text \<open>Whether the cache holds an entry for the key that has not expired at \<open>now\<close>.\<close>

definition unexpired :: "imageCache \<Rightarrow> string \<Rightarrow> Time \<Rightarrow> bool" where
  "unexpired items key now =
     (case fmlookup items key of None \<Rightarrow> False | Some cached \<Rightarrow> time_Before now (expiresAt cached))"

section \<open>Concrete inputs\<close>

text \<open>
  The inputs on which the theorems below are instantiated. The event at 10:00 and the
  day of the cycle's first date are those of the repository's tests, with the instants
  counted in nanoseconds from the local midnight.
\<close>

definition fajrTen :: eventSpec where
  "fajrTen = eventSpec_zero\<lparr>Key := ''fajr'', Time := 36000000000000\<rparr>"

definition testDay :: DayTimes where
  "testDay = \<lparr>Data = [], Day = 1, SuhoorEnd = 341, Fajr = 341, Dhuhr = 761, Asr = 940,
              Maghrib = 1094, Isha = 1170\<rparr>"

definition preStartDays :: "DayTimes list" where
  "preStartDays =
     [\<lparr>Data = ''pre-start'', Day = 0, SuhoorEnd = 0, Fajr = 0, Dhuhr = 0, Asr = 0, Maghrib = 0, Isha = 0\<rparr>,
      \<lparr>Data = ''day1'', Day = 1, SuhoorEnd = 0, Fajr = 0, Dhuhr = 0, Asr = 0, Maghrib = 0, Isha = 0\<rparr>]"

definition twelveHours :: int where
  "twelveHours = 12 * 60 * 60 * 1000000000"

text \<open>
  A cache with an entry that expires at instant 100, and three calls on an empty cache
  with a time-to-live of one hour: the first at instants 0 to 2, the second at 3 to 5, the
  third one nanosecond after the entry stored at instant 1 has expired.
\<close>

definition staleCache :: imageCache where
  "staleCache = fmupd ''k'' \<lparr>data = ''old'', expiresAt = 100\<rparr> fmempty"

definition firstCall :: getOrBuildResult where
  "firstCall = getOrBuild (Some fmempty) ''k'' Hour (Inr ''img'') 0 1 2"

definition secondCall :: getOrBuildResult where
  "secondCall = getOrBuild (cache firstCall) ''k'' Hour (Inr ''other'') 3 4 5"

definition thirdCall :: getOrBuildResult where
  "thirdCall = getOrBuild (cache secondCall) ''k'' Hour (Inr ''img2'') 3600000000002 3600000000003 3600000000004"

text \<open>
  A store with two subscribers, the second with notifications on and no region; the
  document that \<open>json.MarshalIndent\<close> writes for its snapshot; and an instance of the
  library parameters that agrees with Go's library on the inputs used below:
  \<open>strings.ToLower\<close> on ASCII, \<open>filepath.Dir\<close> on a bare file name, and the JSON
  functions on the sample document (every other text is rejected).
\<close>

definition asht :: string where
  "asht = [CHR 0xD0, CHR 0x90, CHR 0xD1, CHR 0x88, CHR 0xD1, CHR 0x82]"

definition sampleUsers :: "(int64 \<times> UserSettings) list" where
  "sampleUsers =
     [(7, \<lparr>Language = ''en'', Region = asht, Notifications = True, RegionSelected = True\<rparr>),
      (8, \<lparr>Language = ''tg'', Region = [], Notifications = True, RegionSelected = True\<rparr>)]"

definition sampleData :: persistedStateData where
  "sampleData =
     \<lparr>Users =
        [(''7'', \<lparr>Language = ''en'', Region = asht, Notifications = True, RegionSelected = True\<rparr>),
         (''8'', \<lparr>Language = ''tg'', Region = [], Notifications = True, RegionSelected = True\<rparr>)]\<rparr>"

definition sampleDoc :: bytes where
  "sampleDoc =
     ''{'' @ [CHR 0x0A] @ ''  '' @ [CHR 0x22] @ ''users'' @ [CHR 0x22] @ '': {'' @ [CHR 0x0A] @
     ''    '' @ [CHR 0x22] @ ''7'' @ [CHR 0x22] @ '': {'' @ [CHR 0x0A] @ ''      '' @
     [CHR 0x22] @ ''Language'' @ [CHR 0x22] @ '': '' @ [CHR 0x22] @ ''en'' @ [CHR 0x22] @
     '','' @ [CHR 0x0A] @ ''      '' @ [CHR 0x22] @ ''Region'' @ [CHR 0x22] @ '': '' @
     [CHR 0x22, CHR 0xD0, CHR 0x90, CHR 0xD1, CHR 0x88, CHR 0xD1, CHR 0x82, CHR 0x22] @ '','' @
     [CHR 0x0A] @ ''      '' @ [CHR 0x22] @ ''Notifications'' @ [CHR 0x22] @ '': true,'' @
     [CHR 0x0A] @ ''      '' @ [CHR 0x22] @ ''RegionSelected'' @ [CHR 0x22] @ '': true'' @
     [CHR 0x0A] @ ''    },'' @ [CHR 0x0A] @ ''    '' @ [CHR 0x22] @ ''8'' @ [CHR 0x22] @
     '': {'' @ [CHR 0x0A] @ ''      '' @ [CHR 0x22] @ ''Language'' @ [CHR 0x22] @ '': '' @
     [CHR 0x22] @ ''tg'' @ [CHR 0x22] @ '','' @ [CHR 0x0A] @ ''      '' @ [CHR 0x22] @
     ''Region'' @ [CHR 0x22] @ '': '' @ [CHR 0x22, CHR 0x22] @ '','' @ [CHR 0x0A] @
     ''      '' @ [CHR 0x22] @ ''Notifications'' @ [CHR 0x22] @ '': true,'' @ [CHR 0x0A] @
     ''      '' @ [CHR 0x22] @ ''RegionSelected'' @ [CHR 0x22] @ '': true'' @ [CHR 0x0A] @
     ''    }'' @ [CHR 0x0A] @ ''  }'' @ [CHR 0x0A] @ ''}''"

definition asciiToLower :: "string \<Rightarrow> string" where
  "asciiToLower s =
     map (\<lambda>c. if 65 \<le> (of_char c :: nat) \<and> (of_char c :: nat) \<le> 90
               then char_of ((of_char c :: nat) + 32) else c) s"

definition sampleLib :: golib where
  "sampleLib =
     \<lparr>strings_ToLower = asciiToLower,
      json_MarshalIndent =
        (\<lambda>d. if d = sampleData then Inr sampleDoc else Inl (ErrOther ''json: not in the sample'')),
      json_Unmarshal =
        (\<lambda>raw. if raw = sampleDoc then Inr sampleData else Inl (ErrOther ''json: invalid character'')),
      filepath_Dir = (\<lambda>p. ''.'')\<rparr>"

definition emptyDisk :: fs where
  "emptyDisk = (\<lambda>name. Missing)"

definition sampleStore :: StateStore where
  "sampleStore = \<lparr>users = sampleUsers, persistPath = ''state.json''\<rparr>"

text \<open>
  The file system after the sample store's snapshot has been written to an empty one, one
  whose state file is blank, and one whose state file is not JSON.
\<close>

definition writtenDisk :: fs where
  "writtenDisk = snd (writeStateSnapshot sampleLib ''state.json'' (snapshotLocked sampleStore) emptyDisk)"

definition blankDisk :: fs where
  "blankDisk = emptyDisk(''state.json'' := File [CHR '' '', CHR 0x0A])"

definition brokenDisk :: fs where
  "brokenDisk = emptyDisk(''state.json'' := File ''{broken'')"

chapter \<open>Properties\<close>

section \<open>Trigger policy\<close>

lemma sint_Minute: "sint Minute = nanosPerMinute"
  by (simp add: Minute_def Second_def Nanosecond_def nanosPerMinute_def)

lemma sint_minus_30_Minute: "sint (- (30 * Minute) :: Duration) = - thirtyMinutes"
  by (simp add: Minute_def Second_def Nanosecond_def thirtyMinutes_def)

lemma sent_lookup_firedSet:
  "(case sent of None \<Rightarrow> False | Some m \<Rightarrow> sent_lookup m k) \<longleftrightarrow> k \<in> firedSet sent"
  by (auto simp: firedSet_def sent_lookup_def split: option.splits)

lemma shouldTriggerReminder_iff:
  "shouldTriggerReminder t e S \<longleftrightarrow> Time e - thirtyMinutes \<le> t \<and> Key e \<notin> firedSet S"
  unfolding shouldTriggerReminder_def sent_lookup_firedSet
  by (auto simp: Let_def time_Before_def time_Add_def sint_minus_30_Minute)

text \<open>
  Claim C1. For every event \<open>e\<close>, time \<open>t\<close> and fired-set \<open>S\<close>,
  \<open>shouldTriggerReminder t e S\<close> holds exactly when \<open>t\<close> is at or after
  \<open>e.Time\<close> minus 30 minutes and \<open>e.Key\<close> is not in \<open>S\<close>. With an empty fired-set
  \<open>S0\<close> it is false strictly before the 30-minute mark and true at the mark; it is false
  whenever \<open>e.Key\<close> is in \<open>S\<close>, whatever \<open>t\<close> is.
\<close>

theorem C1_shouldTriggerReminder:
  "(shouldTriggerReminder t e S \<longleftrightarrow> Time e - thirtyMinutes \<le> t \<and> Key e \<notin> firedSet S)
   \<and> (firedSet S0 = {} \<and> t < Time e - thirtyMinutes \<longrightarrow> \<not> shouldTriggerReminder t e S0)
   \<and> (firedSet S0 = {} \<longrightarrow> shouldTriggerReminder (Time e - thirtyMinutes) e S0)
   \<and> (Key e \<in> firedSet S \<longrightarrow> \<not> shouldTriggerReminder t e S)"
  by (simp add: shouldTriggerReminder_iff)

text \<open>
  The instance of the repository's test: an event at 10:00 is not due at 09:29:59, is due
  at 09:30:00 and at 09:45:00, and is not due at 09:45:00 once its key is in the fired-set.
\<close>

theorem C1_shouldTriggerReminder_witness:
  "firedSet (Some Map.empty) = {}
   \<and> (34199000000000 :: int) < Time fajrTen - thirtyMinutes
   \<and> \<not> shouldTriggerReminder 34199000000000 fajrTen (Some Map.empty)
   \<and> shouldTriggerReminder 34200000000000 fajrTen (Some Map.empty)
   \<and> shouldTriggerReminder 35100000000000 fajrTen (Some Map.empty)
   \<and> Key fajrTen \<in> firedSet (Some [''fajr'' \<mapsto> True])
   \<and> \<not> shouldTriggerReminder 35100000000000 fajrTen (Some [''fajr'' \<mapsto> True])"
  using C1_shouldTriggerReminder [of 34199000000000 fajrTen "Some [''fajr'' \<mapsto> True]" "Some Map.empty"]
    C1_shouldTriggerReminder [of 35100000000000 fajrTen "Some [''fajr'' \<mapsto> True]" "Some Map.empty"]
    C1_shouldTriggerReminder [of 34200000000000 fajrTen "Some Map.empty" "Some Map.empty"]
    C1_shouldTriggerReminder [of 35100000000000 fajrTen "Some Map.empty" "Some Map.empty"]
  by (simp add: firedSet_def fajrTen_def eventSpec_zero_def thirtyMinutes_def)

section \<open>Event derivation\<close>

lemma sint_times_Minute:
  assumes "fitsDuration m"
  shows "sint (m * Minute) = sint m * nanosPerMinute"
proof -
  have "sint (m * Minute) = signed_take_bit 63 (sint m * nanosPerMinute)"
    by (simp add: sint_word_mult sint_Minute)
  also have "\<dots> = sint m * nanosPerMinute"
    using assms
    by (intro signed_take_bit_int_eq_self) (simp_all add: fitsDuration_def minDuration_def maxDuration_def)
  finally show ?thesis .
qed

text \<open>Every offset that is a minute of a day fits.\<close>

lemma minute_of_day_fits: "0 \<le> sint m \<Longrightarrow> sint m < 1440 \<Longrightarrow> fitsDuration m"
  by (simp add: fitsDuration_def minDuration_def maxDuration_def nanosPerMinute_def)

text \<open>
  Claim C2. For every base timestamp and every day schedule, \<open>reminderEventsForDay\<close>
  returns exactly six events with the keys suhoor, fajr, dhuhr, asr, maghrib, isha in this
  order; the suhoor flag is set on the first event only and the iftar flag on the fifth
  only; and the timestamp of each event equals the base plus the event's minute offset,
  for the minute offsets that the callers guarantee: those of a day, at least 0 and
  below 1440.
\<close>

theorem C2_reminderEventsForDay:
  "length (reminderEventsForDay base day) = 6
   \<and> map Key (reminderEventsForDay base day) = [''suhoor'', ''fajr'', ''dhuhr'', ''asr'', ''maghrib'', ''isha'']
   \<and> list_all2 (\<lambda>ev m. 0 \<le> sint m \<and> sint m < 1440 \<longrightarrow> Time ev = base + sint m * nanosPerMinute)
        (reminderEventsForDay base day) (minuteOffsets day)
   \<and> map UseSuhoor (reminderEventsForDay base day) = [True, False, False, False, False, False]
   \<and> map UseIftar (reminderEventsForDay base day) = [False, False, False, False, True, False]"
  by (simp add: reminderEventsForDay_def minuteOffsets_def eventSpec_zero_def time_Add_def
      sint_times_Minute minute_of_day_fits)

theorem C2_reminderEventsForDay_witness:
  "list_all (\<lambda>m. 0 \<le> sint m \<and> sint m < 1440) (minuteOffsets testDay)
   \<and> map Time (reminderEventsForDay 1000 testDay) =
       [1000 + 341 * nanosPerMinute, 1000 + 341 * nanosPerMinute, 1000 + 761 * nanosPerMinute,
        1000 + 940 * nanosPerMinute, 1000 + 1094 * nanosPerMinute, 1000 + 1170 * nanosPerMinute]"
proof -
  have dom: "list_all (\<lambda>m. 0 \<le> sint m \<and> sint m < 1440) (minuteOffsets testDay)"
    by (simp add: minuteOffsets_def testDay_def)
  have "list_all2 (\<lambda>ev m. Time ev = 1000 + sint m * nanosPerMinute)
          (reminderEventsForDay 1000 testDay) (minuteOffsets testDay)"
    using C2_reminderEventsForDay [of 1000 testDay] dom
    by (simp add: reminderEventsForDay_def minuteOffsets_def)
  then have "map Time (reminderEventsForDay 1000 testDay) =
      map (\<lambda>m. 1000 + sint m * nanosPerMinute) (minuteOffsets testDay)"
    by (simp add: reminderEventsForDay_def minuteOffsets_def)
  with dom show ?thesis
    by (simp add: minuteOffsets_def testDay_def)
qed

section \<open>The day of the cycle\<close>

lemma find_Some_set: "find P xs = Some x \<Longrightarrow> x \<in> set xs \<and> P x"
  by (induction xs) (auto split: if_splits)

lemma sint_time_Sub:
  "minDuration \<le> now - start \<Longrightarrow> now - start \<le> maxDuration \<Longrightarrow> sint (time_Sub now start) = now - start"
proof -
  assume a: "minDuration \<le> now - start" "now - start \<le> maxDuration"
  then have "time_Sub now start = word_of_int (now - start)"
    unfolding time_Sub_def Let_def by (simp only: not_less [symmetric] if_False)
  then have "sint (time_Sub now start) = signed_take_bit 63 (now - start)"
    by (simp only: sint_sbintrunc') simp
  also have "\<dots> = now - start"
    using a by (intro signed_take_bit_int_eq_self) (simp_all add: minDuration_def maxDuration_def)
  finally show ?thesis .
qed

subsection \<open>Rounding to \<open>float64\<close>\<close>

lemma pow2_powi: "pow2 e = 2 powi e"
  by (simp add: pow2_def power_int_def power_one_over)

lemma pow2_pos: "0 < pow2 e"
  by (simp add: pow2_powi zero_less_power_int)

lemma pow2_add: "pow2 (a + b) = pow2 a * pow2 b"
  by (simp add: pow2_powi power_int_add)

lemma pow2_mono: "a \<le> b \<Longrightarrow> pow2 a \<le> pow2 b"
  by (simp add: pow2_powi power_int_increasing)

lemma pow2_strict_mono: "a < b \<Longrightarrow> pow2 a < pow2 b"
  by (simp add: pow2_powi power_int_strict_increasing)

lemma pow2_nat: "0 \<le> e \<Longrightarrow> pow2 e = 2 ^ nat e"
  by (simp add: pow2_def)

lemma pow2_less_imp: "pow2 a < pow2 b \<Longrightarrow> a < b"
  using pow2_mono [of b a] by (cases "a < b") auto

lemma bitlen_rat_bounds:
  assumes "0 < p"
  shows "pow2 (bitlen p - 1) \<le> of_int p" and "of_int p < pow2 (bitlen p)"
proof -
  have pos: "0 < bitlen p"
    using assms bitlen_eq_zero_iff [of p] bitlen_nonneg [of p] by linarith
  from bitlen_bounds [OF assms] have b: "2 ^ nat (bitlen p - 1) \<le> p" "p < 2 ^ nat (bitlen p)"
    by simp_all
  have "(of_int (2 ^ nat (bitlen p - 1)) :: rat) \<le> of_int p"
    using b(1) by (simp only: of_int_le_iff)
  then show "pow2 (bitlen p - 1) \<le> of_int p"
    using pos by (simp add: pow2_nat)
  have "(of_int p :: rat) < of_int (2 ^ nat (bitlen p))"
    using b(2) by (simp only: of_int_less_iff)
  then show "of_int p < pow2 (bitlen p)"
    using pos by (simp add: pow2_nat)
qed

lemma expo_spec:
  assumes "0 < x"
  shows "pow2 (expo x) \<le> x" and "x < pow2 (expo x + 1)"
proof -
  obtain p q where pq: "quotient_of x = (p, q)" by (cases "quotient_of x")
  then have q: "0 < q" and x: "x = of_int p / of_int q"
    by (simp_all add: quotient_of_denom_pos quotient_of_div)
  from assms x q have p: "0 < p"
    by (simp add: zero_less_divide_iff)
  let ?t = "bitlen p - bitlen q"
  have qr: "(0 :: rat) < of_int q" using q by simp
  have xq: "x * of_int q = of_int p" using x q by simp
  have up: "x < pow2 (?t + 1)"
  proof -
    have "of_int p < pow2 (bitlen p)" by (rule bitlen_rat_bounds [OF p])
    also have "pow2 (bitlen p) = pow2 (?t + 1) * pow2 (bitlen q - 1)"
      by (simp add: pow2_add [symmetric])
    also have "\<dots> \<le> pow2 (?t + 1) * of_int q"
      using bitlen_rat_bounds(1) [OF q] pow2_pos [of "?t + 1"] by simp
    finally have "x * of_int q < pow2 (?t + 1) * of_int q" by (simp add: xq)
    with qr show ?thesis by simp
  qed
  have lo: "pow2 (?t - 1) < x"
  proof -
    have "pow2 (?t - 1) * of_int q < pow2 (?t - 1) * pow2 (bitlen q)"
      using bitlen_rat_bounds(2) [OF q] pow2_pos [of "?t - 1"] by simp
    also have "\<dots> = pow2 (bitlen p - 1)"
      by (simp add: pow2_add [symmetric])
    also have "\<dots> \<le> of_int p" by (rule bitlen_rat_bounds [OF p])
    finally have "pow2 (?t - 1) * of_int q < x * of_int q" by (simp add: xq)
    with qr show ?thesis by simp
  qed
  have e: "expo x = (if pow2 ?t \<le> x then ?t else ?t - 1)"
    by (simp add: expo_def pq Let_def)
  show "pow2 (expo x) \<le> x"
    using lo by (simp add: e)
  show "x < pow2 (expo x + 1)"
    using up by (auto simp: e not_le)
qed

lemma expo_unique:
  assumes "pow2 e \<le> x" and "x < pow2 (e + 1)"
  shows "expo x = e"
proof -
  have pos: "0 < x" using assms(1) pow2_pos [of e] by linarith
  note s = expo_spec [OF pos]
  have "pow2 (expo x) < pow2 (e + 1)" using s(1) assms(2) by linarith
  then have a: "expo x < e + 1" by (rule pow2_less_imp)
  have "pow2 e < pow2 (expo x + 1)" using s(2) assms(1) by linarith
  then have b: "e < expo x + 1" by (rule pow2_less_imp)
  from a b show ?thesis by linarith
qed

lemma expo_mono:
  assumes "0 < x" and "x \<le> y"
  shows "expo x \<le> expo y"
proof -
  have y: "0 < y" using assms by linarith
  have "pow2 (expo x) < pow2 (expo y + 1)"
    using expo_spec(1) [OF assms(1)] expo_spec(2) [OF y] assms(2) by linarith
  then have "expo x < expo y + 1" by (rule pow2_less_imp)
  then show ?thesis by simp
qed

lemma round_even_bounds: "\<lfloor>y\<rfloor> \<le> round_even y" "round_even y \<le> \<lfloor>y\<rfloor> + 1"
  by (simp_all add: round_even_def Let_def)

lemma round_even_of_int: "round_even (of_int m) = m"
  by (simp add: round_even_def)

lemma round_even_mono:
  assumes "y \<le> z"
  shows "round_even y \<le> round_even z"
proof (cases "\<lfloor>y\<rfloor> < \<lfloor>z\<rfloor>")
  case True
  have "round_even y \<le> \<lfloor>y\<rfloor> + 1" by (rule round_even_bounds)
  also have "\<dots> \<le> \<lfloor>z\<rfloor>" using True by simp
  also have "\<dots> \<le> round_even z" by (rule round_even_bounds)
  finally show ?thesis .
next
  case False
  with floor_mono [OF assms] have eq: "\<lfloor>y\<rfloor> = \<lfloor>z\<rfloor>" by simp
  show ?thesis
    using assms by (auto simp: round_even_def Let_def eq)
qed

lemma pow2_mult_eq: "a + b = c \<Longrightarrow> pow2 a * pow2 b = pow2 c"
  using pow2_add [of a b] by simp

lemma float64_zero: "float64 0 = 0"
  by (simp add: float64_def)

lemma scaled_bounds:
  assumes "0 < x"
  shows "pow2 52 \<le> x / pow2 (expo x - 52)" and "x / pow2 (expo x - 52) < pow2 53"
proof -
  let ?u = "pow2 (expo x - 52)"
  have u: "0 < ?u" by (rule pow2_pos)
  have a: "pow2 52 * ?u = pow2 (expo x)" by (rule pow2_mult_eq) simp
  have b: "pow2 53 * ?u = pow2 (expo x + 1)" by (rule pow2_mult_eq) simp
  show "pow2 52 \<le> x / ?u"
    using expo_spec(1) [OF assms] u a by (simp add: pos_le_divide_eq)
  show "x / ?u < pow2 53"
    using expo_spec(2) [OF assms] u b by (simp add: pos_divide_less_eq)
qed

lemma pow2_of_int: "0 \<le> e \<Longrightarrow> pow2 e = of_int (2 ^ nat e)"
  by (simp add: pow2_nat)

lemma float64_pos_bounds:
  assumes "0 < x"
  shows "pow2 (expo x) \<le> float64 x" and "float64 x \<le> pow2 (expo x + 1)"
proof -
  let ?u = "pow2 (expo x - 52)"
  have u: "0 < ?u" by (rule pow2_pos)
  have f: "float64 x = of_int (round_even (x / ?u)) * ?u"
    using assms by (simp add: float64_def Let_def)
  have "round_even (pow2 52) \<le> round_even (x / ?u)"
    using scaled_bounds(1) [OF assms] by (rule round_even_mono)
  then have lo: "(2 ^ 52 :: int) \<le> round_even (x / ?u)"
    by (simp add: pow2_of_int round_even_of_int del: of_int_power of_int_numeral)
  have "round_even (x / ?u) \<le> round_even (pow2 53)"
    using scaled_bounds(2) [OF assms] by (intro round_even_mono) simp
  then have hi: "round_even (x / ?u) \<le> (2 ^ 53 :: int)"
    by (simp add: pow2_of_int round_even_of_int del: of_int_power of_int_numeral)
  have "pow2 (expo x) = pow2 52 * ?u" by (rule pow2_mult_eq [symmetric]) simp
  also have "\<dots> = of_int (2 ^ 52) * ?u" by (simp add: pow2_nat)
  also have "\<dots> \<le> of_int (round_even (x / ?u)) * ?u"
    using lo u by (simp only: mult_le_cancel_right_pos of_int_le_iff)
  finally show "pow2 (expo x) \<le> float64 x" by (simp only: f)
  have "of_int (round_even (x / ?u)) * ?u \<le> of_int (2 ^ 53) * ?u"
    using hi u by (simp only: mult_le_cancel_right_pos of_int_le_iff)
  also have "\<dots> = pow2 53 * ?u" by (simp add: pow2_nat)
  also have "\<dots> = pow2 (expo x + 1)" by (rule pow2_mult_eq) simp
  finally show "float64 x \<le> pow2 (expo x + 1)" by (simp only: f)
qed

lemma float64_neg_bounds:
  assumes "x < 0"
  shows "- pow2 (expo (- x) + 1) \<le> float64 x" and "float64 x \<le> - pow2 (expo (- x))"
proof -
  let ?u = "pow2 (expo (- x) - 52)"
  have u: "0 < ?u" by (rule pow2_pos)
  have nx: "0 < - x" using assms by simp
  have f: "float64 x = of_int (round_even (x / ?u)) * ?u"
    using assms by (simp add: float64_def Let_def abs_if)
  have s1: "x / ?u \<le> - pow2 52"
    using scaled_bounds(1) [OF nx] by simp
  have s2: "- pow2 53 \<le> x / ?u"
    using scaled_bounds(2) [OF nx] by simp
  have m52: "- pow2 52 = of_int (- (2 ^ 52))" by (simp add: pow2_nat)
  have m53: "- pow2 53 = of_int (- (2 ^ 53))" by (simp add: pow2_nat)
  have "round_even (x / ?u) \<le> round_even (of_int (- (2 ^ 52)))"
    using s1 unfolding m52 by (rule round_even_mono)
  then have hi: "round_even (x / ?u) \<le> - (2 ^ 52)"
    by (simp only: round_even_of_int)
  have "round_even (of_int (- (2 ^ 53))) \<le> round_even (x / ?u)"
    using s2 unfolding m53 by (rule round_even_mono)
  then have lo: "- (2 ^ 53) \<le> round_even (x / ?u)"
    by (simp only: round_even_of_int)
  have "pow2 53 * ?u = pow2 (expo (- x) + 1)" by (rule pow2_mult_eq) simp
  then have "- pow2 (expo (- x) + 1) = (- pow2 53) * ?u" by simp
  also have "\<dots> = of_int (- (2 ^ 53)) * ?u" by (simp only: m53)
  also have "\<dots> \<le> of_int (round_even (x / ?u)) * ?u"
    using lo u by (simp only: mult_le_cancel_right_pos of_int_le_iff)
  finally show "- pow2 (expo (- x) + 1) \<le> float64 x" by (simp only: f)
  have "of_int (round_even (x / ?u)) * ?u \<le> of_int (- (2 ^ 52)) * ?u"
    using hi u by (simp only: mult_le_cancel_right_pos of_int_le_iff)
  also have "\<dots> = (- pow2 52) * ?u" by (simp only: m52)
  also have "\<dots> = - (pow2 52 * ?u)" by simp
  also have "pow2 52 * ?u = pow2 (expo (- x))" by (rule pow2_mult_eq) simp
  finally show "float64 x \<le> - pow2 (expo (- x))" by (simp only: f)
qed

lemma float64_same_binade:
  assumes "x \<noteq> 0" "y \<noteq> 0" "expo \<bar>x\<bar> = expo \<bar>y\<bar>" "x \<le> y"
  shows "float64 x \<le> float64 y"
proof -
  let ?u = "pow2 (expo \<bar>y\<bar> - 52)"
  have u: "0 < ?u" by (rule pow2_pos)
  have "x / ?u \<le> y / ?u" using assms(4) u by (simp add: divide_right_mono)
  then have "round_even (x / ?u) \<le> round_even (y / ?u)" by (rule round_even_mono)
  then have "of_int (round_even (x / ?u)) * ?u \<le> of_int (round_even (y / ?u)) * ?u"
    using u by (simp only: mult_le_cancel_right_pos of_int_le_iff)
  then show ?thesis
    using assms(1,2,3) by (simp add: float64_def Let_def)
qed

lemma float64_mono:
  assumes "x \<le> y"
  shows "float64 x \<le> float64 y"
proof -
  consider "x = 0" "y = 0" | "x < 0" "0 \<le> y" | "x = 0" "0 < y" | "0 < x" | "y < 0"
    using assms by linarith
  then show ?thesis
  proof cases
    case 1
    then show ?thesis by simp
  next
    case 2
    have a: "float64 x \<le> 0"
      using float64_neg_bounds(2) [OF 2(1)] pow2_pos [of "expo (- x)"] by linarith
    have "0 \<le> float64 y"
    proof (cases "y = 0")
      case True then show ?thesis by (simp add: float64_zero)
    next
      case False
      with 2 have "0 < y" by simp
      from float64_pos_bounds(1) [OF this] pow2_pos [of "expo y"] show ?thesis by linarith
    qed
    with a show ?thesis by linarith
  next
    case 3
    from float64_pos_bounds(1) [OF 3(2)] pow2_pos [of "expo y"] 3(1) show ?thesis
      by (simp add: float64_zero)
  next
    case 4
    then have y: "0 < y" using assms by linarith
    have le: "expo x \<le> expo y" using 4 assms by (rule expo_mono)
    show ?thesis
    proof (cases "expo x = expo y")
      case True
      then show ?thesis
        using 4 y assms by (intro float64_same_binade) simp_all
    next
      case False
      with le have "expo x + 1 \<le> expo y" by simp
      then have "pow2 (expo x + 1) \<le> pow2 (expo y)" by (rule pow2_mono)
      with float64_pos_bounds(2) [OF 4] float64_pos_bounds(1) [OF y] show ?thesis by linarith
    qed
  next
    case 5
    then have x: "x < 0" using assms by linarith
    have ny: "0 < - y" using 5 by simp
    have le: "expo (- y) \<le> expo (- x)" using ny assms by (intro expo_mono) simp_all
    show ?thesis
    proof (cases "expo (- y) = expo (- x)")
      case True
      then show ?thesis
        using 5 x assms by (intro float64_same_binade) (simp_all add: abs_if)
    next
      case False
      with le have "expo (- y) + 1 \<le> expo (- x)" by simp
      then have "pow2 (expo (- y) + 1) \<le> pow2 (expo (- x))" by (rule pow2_mono)
      with float64_neg_bounds(2) [OF x] float64_neg_bounds(1) [OF 5] show ?thesis by linarith
    qed
  qed
qed

lemma float64_exact:
  assumes "x / pow2 (expo \<bar>x\<bar> - 52) = of_int m"
  shows "float64 x = x"
proof (cases "x = 0")
  case True then show ?thesis by (simp add: float64_zero)
next
  case False
  have u: "pow2 (expo \<bar>x\<bar> - 52) \<noteq> 0" using pow2_pos [of "expo \<bar>x\<bar> - 52"] by simp
  from assms u have "x = of_int m * pow2 (expo \<bar>x\<bar> - 52)"
    by (simp add: field_simps)
  then show ?thesis
    using False by (simp add: float64_def Let_def assms round_even_of_int)
qed

lemma float64_of_int:
  assumes "\<bar>m\<bar> < 2 ^ 53"
  shows "float64 (of_int m) = of_int m"
proof (cases "m = 0")
  case True then show ?thesis by (simp add: float64_zero)
next
  case False
  let ?x = "of_int m :: rat"
  have pos: "0 < \<bar>?x\<bar>" using False by simp
  have "\<bar>?x\<bar> = of_int \<bar>m\<bar>" by simp
  also have "\<dots> < of_int (2 ^ 53)" using assms by (simp only: of_int_less_iff)
  also have "\<dots> = pow2 53" by (simp add: pow2_nat)
  finally have "pow2 (expo \<bar>?x\<bar>) < pow2 53"
    using expo_spec(1) [OF pos] by linarith
  then have e: "expo \<bar>?x\<bar> < 53" by (rule pow2_less_imp)
  define k where "k = 52 - expo \<bar>?x\<bar>"
  have k: "0 \<le> k" using e by (simp add: k_def)
  have "pow2 (expo \<bar>?x\<bar> - 52) * pow2 k = pow2 0"
    by (rule pow2_mult_eq) (simp add: k_def)
  then have "pow2 (expo \<bar>?x\<bar> - 52) * pow2 k = 1"
    by (simp add: pow2_def)
  then have "?x / pow2 (expo \<bar>?x\<bar> - 52) = ?x * pow2 k"
    using pow2_pos [of "expo \<bar>?x\<bar> - 52"] by (simp add: field_simps)
  also have "\<dots> = of_int (m * 2 ^ nat k)"
    using k by (simp add: pow2_nat)
  finally show ?thesis by (rule float64_exact)
qed

lemma sint_Hour_nanos: "sint Hour = nanosPerHour"
  by (simp add: Hour_def Minute_def Second_def Nanosecond_def nanosPerHour_def)

lemma go_quot_rem_nonneg:
  assumes "0 \<le> d"
  shows "go_quot d nanosPerHour = d div nanosPerHour" and "go_rem d nanosPerHour = d mod nanosPerHour"
proof -
  show q: "go_quot d nanosPerHour = d div nanosPerHour"
    using assms by (cases "d = 0") (simp_all add: go_quot_def nanosPerHour_def)
  show "go_rem d nanosPerHour = d mod nanosPerHour"
    by (simp add: go_rem_def q minus_mult_div_eq_mod)
qed

lemma go_quot_rem_neg:
  assumes "d < 0"
  shows "go_quot d nanosPerHour = - ((- d) div nanosPerHour)"
    and "go_rem d nanosPerHour = - ((- d) mod nanosPerHour)"
proof -
  show q: "go_quot d nanosPerHour = - ((- d) div nanosPerHour)"
    using assms by (simp add: go_quot_def nanosPerHour_def)
  have "nanosPerHour * ((- d) div nanosPerHour) + (- d) mod nanosPerHour = - d"
    by (rule mult_div_mod_eq)
  then show "go_rem d nanosPerHour = - ((- d) mod nanosPerHour)"
    unfolding go_rem_def q by linarith
qed

lemma float64_one: "float64 1 = 1"
  using float64_of_int [of 1] by simp

lemma frac_part_nonneg:
  assumes "0 \<le> r" and "r < nanosPerHour"
  shows "0 \<le> float64 (of_int r / 3600000000000)" and "float64 (of_int r / 3600000000000) \<le> 1"
proof -
  have a: "(0 :: rat) \<le> of_int r / 3600000000000" using assms by simp
  have "(of_int r :: rat) \<le> of_int nanosPerHour" using assms by (simp only: of_int_le_iff)
  then have b: "(of_int r :: rat) / 3600000000000 \<le> 1" by (simp add: nanosPerHour_def)
  from float64_mono [OF a] show "0 \<le> float64 (of_int r / 3600000000000)"
    by (simp add: float64_zero)
  from float64_mono [OF b] show "float64 (of_int r / 3600000000000) \<le> 1"
    by (simp add: float64_one)
qed

lemma frac_part_nonpos:
  assumes "r \<le> 0" and "- nanosPerHour < r"
  shows "float64 (of_int r / 3600000000000) \<le> 0" and "- 1 \<le> float64 (of_int r / 3600000000000)"
proof -
  have a: "of_int r / 3600000000000 \<le> (0 :: rat)" using assms by (simp add: divide_le_0_iff)
  have "(of_int (- nanosPerHour) :: rat) \<le> of_int r" using assms by (simp only: of_int_le_iff)
  then have b: "- 1 \<le> (of_int r :: rat) / 3600000000000" by (simp add: nanosPerHour_def)
  from float64_mono [OF a] show "float64 (of_int r / 3600000000000) \<le> 0"
    by (simp add: float64_zero)
  have "float64 (- 1) = - 1" using float64_of_int [of "- 1"] by simp
  with float64_mono [OF b] show "- 1 \<le> float64 (of_int r / 3600000000000)"
    by simp
qed

lemma hoursSum_nonneg:
  assumes "0 \<le> d"
  shows "of_int (d div nanosPerHour) \<le> hoursSum d" and "hoursSum d \<le> of_int (d div nanosPerHour) + 1"
proof -
  have hp: "0 < nanosPerHour" by (simp add: nanosPerHour_def)
  then have r: "0 \<le> d mod nanosPerHour" "d mod nanosPerHour < nanosPerHour" by simp_all
  from frac_part_nonneg [OF r]
  show "of_int (d div nanosPerHour) \<le> hoursSum d" and "hoursSum d \<le> of_int (d div nanosPerHour) + 1"
    by (simp_all add: hoursSum_def go_quot_rem_nonneg [OF assms])
qed

lemma hoursSum_neg:
  assumes "d < 0"
  shows "of_int (- ((- d) div nanosPerHour)) - 1 \<le> hoursSum d"
    and "hoursSum d \<le> of_int (- ((- d) div nanosPerHour))"
proof -
  have hp: "0 < nanosPerHour" by (simp add: nanosPerHour_def)
  then have "0 \<le> (- d) mod nanosPerHour" "(- d) mod nanosPerHour < nanosPerHour" by simp_all
  then have r: "- ((- d) mod nanosPerHour) \<le> 0" "- nanosPerHour < - ((- d) mod nanosPerHour)"
    by simp_all
  from frac_part_nonpos [OF r]
  show "of_int (- ((- d) div nanosPerHour)) - 1 \<le> hoursSum d"
    and "hoursSum d \<le> of_int (- ((- d) div nanosPerHour))"
    by (simp_all add: hoursSum_def go_quot_rem_neg [OF assms])
qed

lemma hoursSum_mono:
  assumes "d \<le> d'"
  shows "hoursSum d \<le> hoursSum d'"
proof -
  have hp: "0 < nanosPerHour" by (simp add: nanosPerHour_def)
  consider "0 \<le> d" | "d < 0" "0 \<le> d'" | "d' < 0" by linarith
  then show ?thesis
  proof cases
    case 1
    then have 2: "0 \<le> d'" using assms by simp
    have qle: "d div nanosPerHour \<le> d' div nanosPerHour"
      using assms hp by (simp add: zdiv_mono1)
    show ?thesis
    proof (cases "d div nanosPerHour = d' div nanosPerHour")
      case True
      have "d mod nanosPerHour \<le> d' mod nanosPerHour"
        using assms True by (metis add_le_cancel_left mult_div_mod_eq)
      then have "(of_int (d mod nanosPerHour) :: rat) / 3600000000000 \<le> of_int (d' mod nanosPerHour) / 3600000000000"
        by (simp add: divide_right_mono)
      from float64_mono [OF this] show ?thesis
        using 1 2 True by (simp add: hoursSum_def go_quot_rem_nonneg)
    next
      case False
      with qle have "d div nanosPerHour + 1 \<le> d' div nanosPerHour" by simp
      then have "(of_int (d div nanosPerHour) :: rat) + 1 \<le> of_int (d' div nanosPerHour)"
        by (metis of_int_1 of_int_add of_int_le_iff)
      with hoursSum_nonneg(2) [OF 1] hoursSum_nonneg(1) [OF 2] show ?thesis by linarith
    qed
  next
    case 2
    have "(- d) div nanosPerHour \<ge> 0" using 2(1) hp by (simp add: pos_imp_zdiv_nonneg_iff)
    then have a: "(of_int (- ((- d) div nanosPerHour)) :: rat) \<le> 0" by simp
    have "d' div nanosPerHour \<ge> 0" using 2(2) hp by (simp add: pos_imp_zdiv_nonneg_iff)
    then have b: "(0 :: rat) \<le> of_int (d' div nanosPerHour)" by simp
    from hoursSum_neg(2) [OF 2(1)] hoursSum_nonneg(1) [OF 2(2)] a b show ?thesis by linarith
  next
    case 3
    then have 1: "d < 0" using assms by simp
    have qle: "(- d') div nanosPerHour \<le> (- d) div nanosPerHour"
      using assms hp by (simp add: zdiv_mono1)
    show ?thesis
    proof (cases "(- d') div nanosPerHour = (- d) div nanosPerHour")
      case True
      have "(- d') mod nanosPerHour \<le> (- d) mod nanosPerHour"
        using assms True by (metis add_le_cancel_left mult_div_mod_eq neg_le_iff_le)
      then have "(of_int (- ((- d) mod nanosPerHour)) :: rat) / 3600000000000
                 \<le> of_int (- ((- d') mod nanosPerHour)) / 3600000000000"
        by (simp add: divide_right_mono)
      from float64_mono [OF this] show ?thesis
        using 1 3 True by (simp add: hoursSum_def go_quot_rem_neg)
    next
      case False
      with qle have "(- d') div nanosPerHour + 1 \<le> (- d) div nanosPerHour" by simp
      then have "(of_int (- ((- d) div nanosPerHour)) :: rat) \<le> of_int (- ((- d') div nanosPerHour)) - 1"
        by (metis (no_types, opaque_lifting) add.commute diff_add_cancel le_diff_eq neg_le_iff_le of_int_1 of_int_diff of_int_le_iff uminus_add_conv_diff minus_diff_eq)
      with hoursSum_neg(2) [OF 1] hoursSum_neg(1) [OF 3] show ?thesis by linarith
    qed
  qed
qed

lemma round_even_below:
  assumes "y < of_int m - 1 / 2"
  shows "round_even y \<le> m - 1"
proof -
  have "y < of_int m" using assms by linarith
  then have f: "\<lfloor>y\<rfloor> \<le> m - 1" by (simp add: floor_less_iff)
  show ?thesis
  proof (cases "\<lfloor>y\<rfloor> = m - 1")
    case True
    then have "y - of_int \<lfloor>y\<rfloor> < 1 / 2" using assms by simp
    then show ?thesis using True by (simp add: round_even_def Let_def)
  next
    case False
    with f have "\<lfloor>y\<rfloor> + 1 \<le> m - 1" by simp
    with round_even_bounds(2) [of y] show ?thesis by linarith
  qed
qed

lemma pow2_half: "pow2 (e - 52) / 2 = pow2 (e - 53)"
proof -
  have "pow2 (e - 53) * pow2 1 = pow2 (e - 52)" by (rule pow2_mult_eq) simp
  then show ?thesis by (simp add: pow2_def)
qed

lemma float64_below_int:
  assumes "x \<noteq> 0" and "expo \<bar>x\<bar> \<le> 52" and "x < of_int N - pow2 (expo \<bar>x\<bar> - 53)"
  shows "float64 x \<le> of_int N - pow2 (expo \<bar>x\<bar> - 52)"
proof -
  let ?u = "pow2 (expo \<bar>x\<bar> - 52)"
  define T where "T = N * 2 ^ nat (52 - expo \<bar>x\<bar>)"
  have u: "0 < ?u" by (rule pow2_pos)
  have "?u * pow2 (52 - expo \<bar>x\<bar>) = pow2 0" by (rule pow2_mult_eq) simp
  then have inv: "?u * pow2 (52 - expo \<bar>x\<bar>) = 1" by (simp add: pow2_def)
  have "of_int T * ?u = of_int N * (pow2 (52 - expo \<bar>x\<bar>) * ?u)"
    using assms(2) by (simp add: T_def pow2_nat)
  then have t: "of_int T * ?u = of_int N" using inv by (simp add: mult.commute)
  have "x < of_int T * ?u - ?u / 2" using assms(3) by (simp only: t pow2_half)
  then have "x < (of_int T - 1 / 2) * ?u" by (simp add: algebra_simps)
  then have "x / ?u < of_int T - 1 / 2"
    using u by (simp only: pos_divide_less_eq)
  then have "round_even (x / ?u) \<le> T - 1" by (rule round_even_below)
  then have "of_int (round_even (x / ?u)) * ?u \<le> of_int (T - 1) * ?u"
    using u by (simp only: mult_le_cancel_right_pos of_int_le_iff)
  also have "\<dots> = of_int N - ?u" using t by (simp add: algebra_simps)
  finally show ?thesis using assms(1) by (simp add: float64_def Let_def)
qed

lemma expo_less:
  assumes "0 < x" and "x < pow2 e"
  shows "expo x < e"
proof -
  have "pow2 (expo x) < pow2 e" using expo_spec(1) [OF assms(1)] assms(2) by linarith
  then show ?thesis by (rule pow2_less_imp)
qed

lemma float64_abs_bounds:
  assumes "y \<noteq> 0"
  shows "pow2 (expo \<bar>y\<bar>) \<le> \<bar>float64 y\<bar>" and "\<bar>float64 y\<bar> \<le> pow2 (expo \<bar>y\<bar> + 1)"
proof -
  have "pow2 (expo \<bar>y\<bar>) \<le> \<bar>float64 y\<bar> \<and> \<bar>float64 y\<bar> \<le> pow2 (expo \<bar>y\<bar> + 1)"
  proof (cases "0 < y")
    case True
    from float64_pos_bounds [OF True] pow2_pos [of "expo y"] True show ?thesis
      by (simp add: abs_of_pos)
  next
    case False
    with assms have n: "y < 0" by simp
    from float64_neg_bounds [OF n] pow2_pos [of "expo (- y)"] n show ?thesis
      by (simp add: abs_of_neg)
  qed
  then show "pow2 (expo \<bar>y\<bar>) \<le> \<bar>float64 y\<bar>" and "\<bar>float64 y\<bar> \<le> pow2 (expo \<bar>y\<bar> + 1)"
    by simp_all
qed

text \<open>Dividing by 24 after the first rounding, and rounding again, stays below the integer.\<close>

lemma second_rounding_below:
  assumes y: "y \<noteq> 0" and e: "expo \<bar>y\<bar> \<le> 11"
    and fy: "float64 y \<le> of_int (24 * n) - pow2 (expo \<bar>y\<bar> - 52)"
  shows "float64 (float64 y / 24) < of_int n"
proof -
  let ?e = "expo \<bar>y\<bar>"
  let ?x = "float64 y / 24"
  have fpos: "0 < \<bar>float64 y\<bar>"
    using float64_abs_bounds(1) [OF y] pow2_pos [of ?e] by linarith
  then have x: "?x \<noteq> 0" by simp
  then have ax: "0 < \<bar>?x\<bar>" by simp
  have "pow2 (?e - 3) * pow2 4 = pow2 (?e + 1)" by (rule pow2_mult_eq) simp
  then have p16: "pow2 (?e + 1) = 16 * pow2 (?e - 3)" by (simp add: pow2_def)
  have "\<bar>?x\<bar> = \<bar>float64 y\<bar> / 24" by simp
  also have "\<dots> \<le> pow2 (?e + 1) / 24"
    using float64_abs_bounds(2) [OF y] by (simp only: divide_right_mono)
  also have "\<dots> < pow2 (?e - 3)"
    using pow2_pos [of "?e - 3"] by (simp add: p16)
  finally have "expo \<bar>?x\<bar> < ?e - 3" using ax by (intro expo_less)
  then have ex: "expo \<bar>?x\<bar> \<le> ?e - 4" by simp
  have ex52: "expo \<bar>?x\<bar> \<le> 52" using ex e by simp
  have "pow2 (?e - 57) * pow2 5 = pow2 (?e - 52)" by (rule pow2_mult_eq) simp
  then have p32: "pow2 (?e - 52) = 32 * pow2 (?e - 57)" by (simp add: pow2_def)
  have "pow2 (expo \<bar>?x\<bar> - 53) \<le> pow2 (?e - 57)" using ex by (intro pow2_mono) simp
  also have "\<dots> < pow2 (?e - 52) / 24"
    using pow2_pos [of "?e - 57"] by (simp add: p32)
  finally have g: "pow2 (expo \<bar>?x\<bar> - 53) < pow2 (?e - 52) / 24" .
  have "?x \<le> (of_int (24 * n) - pow2 (?e - 52)) / 24"
    using fy by (simp only: divide_right_mono)
  also have "\<dots> = of_int n - pow2 (?e - 52) / 24" by (simp add: diff_divide_distrib)
  finally have "?x < of_int n - pow2 (expo \<bar>?x\<bar> - 53)" using g by linarith
  with x ex52 have "float64 ?x \<le> of_int n - pow2 (expo \<bar>?x\<bar> - 52)"
    by (intro float64_below_int)
  with pow2_pos [of "expo \<bar>?x\<bar> - 52"] show ?thesis by linarith
qed

text \<open>The two roundings together: a value that lies more than \<open>2\<^sup>-\<^sup>4\<^sup>2\<close> below a multiple
  of 24 that is at most 4096 in magnitude gives a dayQuotient below that multiple's 24th.\<close>

lemma both_roundings_below:
  assumes y: "y \<noteq> 0" and m: "\<bar>y\<bar> < 4096" and g: "y < of_int (24 * n) - 1 / 2 ^ 42"
  shows "float64 (float64 y / 24) < of_int n"
proof -
  let ?e = "expo \<bar>y\<bar>"
  have "\<bar>y\<bar> < pow2 12" using m by (simp add: pow2_def)
  with y have "?e < 12" by (intro expo_less) simp_all
  then have e: "?e \<le> 11" by simp
  then have "pow2 (?e - 53) \<le> pow2 (- 42)" by (intro pow2_mono) simp
  then have "pow2 (?e - 53) \<le> 1 / 2 ^ 42" by (simp add: pow2_def)
  with g have "y < of_int (24 * n) - pow2 (?e - 53)" by linarith
  with y e have "float64 y \<le> of_int (24 * n) - pow2 (?e - 52)"
    by (intro float64_below_int) simp_all
  with y e show ?thesis by (rule second_rounding_below)
qed

lemma frac_below_one: "float64 (3599999999999 / 3600000000000) < 1 - 1 / 2 ^ 42"
  by code_simp

lemma frac_below_zero: "float64 (- 1 / 3600000000000) < - (1 / 2 ^ 42)"
  by code_simp

lemma go_quot_bound:
  assumes "\<bar>d\<bar> \<le> 2 ^ 63"
  shows "\<bar>go_quot d nanosPerHour\<bar> < 2 ^ 53"
proof -
  have "\<bar>go_quot d nanosPerHour\<bar> = \<bar>d\<bar> div nanosPerHour"
    by (cases "d = 0"; cases "0 < d") (simp_all add: go_quot_def nanosPerHour_def abs_mult)
  also have "\<dots> \<le> 2 ^ 63 div nanosPerHour"
    using assms by (intro zdiv_mono1) (simp_all add: nanosPerHour_def)
  also have "\<dots> < 2 ^ 53" by (simp add: nanosPerHour_def)
  finally show ?thesis .
qed

lemma go_rem_bound: "\<bar>go_rem d nanosPerHour\<bar> < 2 ^ 53"
proof (cases "0 \<le> d")
  case True
  have "0 \<le> d mod nanosPerHour" "d mod nanosPerHour < nanosPerHour"
    by (simp_all add: nanosPerHour_def)
  moreover have "nanosPerHour < 2 ^ 53" by (simp add: nanosPerHour_def)
  ultimately show ?thesis by (simp only: go_quot_rem_nonneg(2) [OF True])
next
  case False
  then have n: "d < 0" by simp
  have "0 \<le> (- d) mod nanosPerHour" "(- d) mod nanosPerHour < nanosPerHour"
    by (simp_all add: nanosPerHour_def)
  moreover have "nanosPerHour < 2 ^ 53" by (simp add: nanosPerHour_def)
  ultimately show ?thesis by (simp only: go_quot_rem_neg(2) [OF n])
qed

text \<open>The two integer conversions of \<open>Hours\<close> are exact.\<close>

lemma Duration_Hours_hoursSum: "Duration_Hours d = float64 (hoursSum (sint d))"
proof -
  have "- (2 ^ 63) \<le> sint d" "sint d < 2 ^ 63"
    using sint_ge [of d] sint_lt [of d] by simp_all
  then have "\<bar>sint d\<bar> \<le> 2 ^ 63" by simp
  from float64_of_int [OF go_quot_bound [OF this]] float64_of_int [OF go_rem_bound [of "sint d"]]
  show ?thesis by (simp add: Duration_Hours_def Let_def hoursSum_def sint_Hour_nanos)
qed

lemma dayQuotient_mono: "d \<le> d' \<Longrightarrow> dayQuotient d \<le> dayQuotient d'"
  unfolding dayQuotient_def
  by (intro float64_mono divide_right_mono hoursSum_mono) simp_all

lemma hoursSum_day_start:
  "hoursSum (nanosPerDay * j) = of_int (24 * j)"
proof (cases "0 \<le> j")
  case True
  then have d: "0 \<le> nanosPerDay * j" by (simp add: nanosPerDay_def)
  have e: "nanosPerDay * j = nanosPerHour * (24 * j) + 0"
    by (simp add: nanosPerDay_def nanosPerHour_def)
  have "(nanosPerDay * j) div nanosPerHour = 24 * j"
    by (rule int_div_pos_eq [OF e]) (simp_all add: nanosPerHour_def)
  moreover have "(nanosPerDay * j) mod nanosPerHour = 0"
    by (rule int_mod_pos_eq [OF e]) (simp_all add: nanosPerHour_def)
  ultimately show ?thesis
    by (simp add: hoursSum_def go_quot_rem_nonneg [OF d] float64_zero)
next
  case False
  then have d: "nanosPerDay * j < 0" by (simp add: nanosPerDay_def)
  have e: "- (nanosPerDay * j) = nanosPerHour * (24 * (- j)) + 0"
    by (simp add: nanosPerDay_def nanosPerHour_def)
  have "(- (nanosPerDay * j)) div nanosPerHour = 24 * (- j)"
    by (rule int_div_pos_eq [OF e]) (simp_all add: nanosPerHour_def)
  moreover have "(- (nanosPerDay * j)) mod nanosPerHour = 0"
    by (rule int_mod_pos_eq [OF e]) (simp_all add: nanosPerHour_def)
  ultimately show ?thesis
    by (simp add: hoursSum_def go_quot_rem_neg [OF d] float64_zero)
qed

text \<open>At the first nanosecond of a day the quotient is the number of whole days.\<close>

lemma dayQuotient_day_start:
  assumes "\<bar>j\<bar> \<le> 171"
  shows "dayQuotient (nanosPerDay * j) = of_int j"
proof -
  have a: "\<bar>24 * j\<bar> < 2 ^ 53" and b: "\<bar>j\<bar> < 2 ^ 53" using assms by simp_all
  have "float64 (of_int (24 * j)) / 24 = (of_int j :: rat)"
    by (simp only: float64_of_int [OF a])
  then show ?thesis
    by (simp only: dayQuotient_def hoursSum_day_start float64_of_int [OF b])
qed

lemma hoursSum_day_end_pos:
  assumes "1 \<le> j"
  shows "hoursSum (nanosPerDay * j - 1) = of_int (24 * j - 1) + float64 (3599999999999 / 3600000000000)"
proof -
  have d: "0 \<le> nanosPerDay * j - 1" using assms by (simp add: nanosPerDay_def)
  have e: "nanosPerDay * j - 1 = nanosPerHour * (24 * j - 1) + 3599999999999"
    by (simp add: nanosPerDay_def nanosPerHour_def)
  have "(nanosPerDay * j - 1) div nanosPerHour = 24 * j - 1"
    by (rule int_div_pos_eq [OF e]) (simp_all add: nanosPerHour_def)
  moreover have "(nanosPerDay * j - 1) mod nanosPerHour = 3599999999999"
    by (rule int_mod_pos_eq [OF e]) (simp_all add: nanosPerHour_def)
  ultimately show ?thesis
    by (simp add: hoursSum_def go_quot_rem_nonneg [OF d])
qed

lemma hoursSum_day_end_neg:
  assumes "j \<le> 0"
  shows "hoursSum (nanosPerDay * j - 1) = of_int (24 * j) + float64 (- 1 / 3600000000000)"
proof -
  have d: "nanosPerDay * j - 1 < 0" using assms by (simp add: nanosPerDay_def mult_le_0_iff)
  have e: "- (nanosPerDay * j - 1) = nanosPerHour * (24 * (- j)) + 1"
    by (simp add: nanosPerDay_def nanosPerHour_def)
  have "(- (nanosPerDay * j - 1)) div nanosPerHour = 24 * (- j)"
    by (rule int_div_pos_eq [OF e]) (simp_all add: nanosPerHour_def)
  moreover have "(- (nanosPerDay * j - 1)) mod nanosPerHour = 1"
    by (rule int_mod_pos_eq [OF e]) (simp_all add: nanosPerHour_def)
  ultimately show ?thesis
    by (simp add: hoursSum_def go_quot_rem_neg [OF d])
qed

text \<open>At the last nanosecond of a day the quotient is still below the next whole number,
  as long as the count of hours stays below 4096.\<close>

lemma dayQuotient_day_end:
  assumes "\<bar>j\<bar> \<le> 170"
  shows "dayQuotient (nanosPerDay * j - 1) < of_int j"
proof (cases "1 \<le> j")
  case True
  let ?c = "float64 (3599999999999 / 3600000000000)"
  let ?y = "of_int (24 * j - 1) + ?c"
  have c0: "0 \<le> ?c" using float64_mono [of 0 "3599999999999 / 3600000000000"]
    by (simp add: float64_zero)
  have j: "(1 :: rat) \<le> of_int j" "(of_int j :: rat) \<le> 170"
    using True assms by (simp_all add: of_int_le_numeral_iff [symmetric] del: of_int_le_numeral_iff)
  have "?y \<noteq> 0" using c0 j by simp
  moreover have "\<bar>?y\<bar> < 4096" using c0 j frac_below_one by simp
  moreover have "?y < of_int (24 * j) - 1 / 2 ^ 42" using frac_below_one by simp
  ultimately have "float64 (float64 ?y / 24) < of_int j" by (rule both_roundings_below)
  then show ?thesis by (simp only: dayQuotient_def hoursSum_day_end_pos [OF True])
next
  case False
  then have n: "j \<le> 0" by simp
  let ?c = "float64 (- 1 / 3600000000000)"
  let ?y = "of_int (24 * j) + ?c"
  have c1: "- 1 \<le> ?c" using float64_mono [of "- 1" "- 1 / 3600000000000"] float64_of_int [of "- 1"]
    by simp
  have j: "(of_int j :: rat) \<le> 0" "- 170 \<le> (of_int j :: rat)"
    using n assms by (simp_all add: of_int_le_numeral_iff [symmetric] del: of_int_le_numeral_iff)
  have "?y \<noteq> 0" using j frac_below_zero by simp
  moreover have "\<bar>?y\<bar> < 4096" using c1 j frac_below_zero by simp
  moreover have "?y < of_int (24 * j) - 1 / 2 ^ 42" using frac_below_zero by simp
  ultimately have "float64 (float64 ?y / 24) < of_int j" by (rule both_roundings_below)
  then show ?thesis by (simp only: dayQuotient_def hoursSum_day_end_neg [OF n])
qed

text \<open>Between 171 days before the start and 170 days after it, the day number of the code,
  computed in \<open>float64\<close>, is the exact one.\<close>

lemma dayIndex_exact:
  assumes "- 171 * nanosPerDay \<le> now - start" and "now - start < 170 * nanosPerDay"
  shows "dayIndex start now = (now - start) div nanosPerDay + 1"
proof -
  define d where "d = now - start"
  define k where "k = d div nanosPerDay"
  have dp: "0 < nanosPerDay" by (simp add: nanosPerDay_def)
  have lo: "nanosPerDay * k \<le> d"
    unfolding k_def using mult_div_mod_eq [of nanosPerDay d] pos_mod_sign [OF dp, of d]
    by linarith
  have "d < nanosPerDay * k + nanosPerDay"
    unfolding k_def using dp mult_div_mod_eq [of nanosPerDay d] pos_mod_bound [OF dp, of d]
    by linarith
  then have hi: "d \<le> nanosPerDay * (k + 1) - 1" by (simp add: algebra_simps)
  have "nanosPerDay * (- 171) < nanosPerDay * (k + 1)"
    using assms(1) hi by (simp add: d_def)
  then have "- 171 < k + 1" using dp by (simp only: mult_less_cancel_left_pos)
  then have k1: "- 171 \<le> k" by simp
  have "nanosPerDay * k < nanosPerDay * 170"
    using assms(2) lo by (simp add: d_def)
  then have k2: "k < 170" using dp by (simp only: mult_less_cancel_left_pos)
  have r: "minDuration \<le> now - start" "now - start \<le> maxDuration"
    using assms by (simp_all add: minDuration_def maxDuration_def nanosPerDay_def)
  have s: "sint (time_Sub now start) = d" unfolding d_def by (rule sint_time_Sub [OF r])
  have "Duration_Hours (time_Sub now start) = float64 (hoursSum d)"
    using Duration_Hours_hoursSum [of "time_Sub now start"] by (simp only: s)
  then have q: "dayIndex start now = \<lfloor>dayQuotient d\<rfloor> + 1"
    by (simp only: dayIndex_def dayQuotient_def)
  have "of_int k = dayQuotient (nanosPerDay * k)"
    using k1 k2 by (intro dayQuotient_day_start [symmetric]) simp
  also have "\<dots> \<le> dayQuotient d" by (rule dayQuotient_mono [OF lo])
  finally have a: "of_int k \<le> dayQuotient d" .
  have "dayQuotient d \<le> dayQuotient (nanosPerDay * (k + 1) - 1)" by (rule dayQuotient_mono [OF hi])
  also have "\<dots> < of_int (k + 1)" using k1 k2 by (intro dayQuotient_day_end) simp
  finally have b: "dayQuotient d < of_int k + 1" by simp
  from a b have "\<lfloor>dayQuotient d\<rfloor> = k" by (simp add: floor_unique)
  then show ?thesis by (simp add: q k_def d_def)
qed

text \<open>
  The range cannot be extended by a day at either end: in the last nanosecond of day 171
  the code computes day 172, and in the last nanosecond of the 172nd day before the start
  (exact day number -171) it computes -170.
\<close>

lemma dayIndex_beyond_range:
  "dayIndex 0 (171 * nanosPerDay - 1) = 172
   \<and> (171 * nanosPerDay - 1 - 0) div nanosPerDay + 1 = 171
   \<and> dayIndex 0 (- 171 * nanosPerDay - 1) = - 170
   \<and> (- 171 * nanosPerDay - 1 - 0) div nanosPerDay + 1 = - 171"
  by code_simp

subsection \<open>The lookup\<close>

text \<open>
  Claim C3, as stated, fails for the day number 0: twelve hours before the start of the
  cycle the day number is 0, outside 1 to the number of days, and the lookup returns the
  entry whose day number is 0 (the repository's test
  \<open>TestCurrentDayScheduleBeforeStartReturnsDayZero\<close>).
\<close>

theorem C3_day_zero_counterexample:
  "\<not> (dayIndex twelveHours 0 < 1 \<or> int (length preStartDays) < dayIndex twelveHours 0 \<longrightarrow>
        currentDaySchedule preStartDays twelveHours 0 = None)"
proof -
  have "dayIndex twelveHours 0 = 0"
    using dayIndex_exact [where start = twelveHours and now = 0]
    by (simp add: twelveHours_def nanosPerDay_def)
  then show ?thesis
    by (simp add: currentDaySchedule_def preStartDays_def)
qed

text \<open>
  Claim C3, amended. The day number is
  \<open>int(math.Floor(now.Sub(start).Hours()/24.0)) + 1\<close>, computed in \<open>float64\<close>; from
  171 days before the start of the cycle to 170 days after it (the end excluded) it is the
  time elapsed since the start divided by 24 hours, rounded down, plus 1.
  \<open>currentDaySchedule\<close> returns a schedule only when the day number is between 0 and the
  number of entries of the calendar, and then an entry of the calendar whose day number
  is the computed one (the entry numbered 0 is the day before the cycle); with the day
  number in that range it returns none exactly when the calendar has no entry with that
  day number; whenever the day number is below 0 or above the number of entries there is
  no schedule; and the loop takes the out-of-range path exactly when there is no
  schedule.
\<close>

theorem C3_currentDaySchedule:
  "(currentDaySchedule days start now = Some d \<longrightarrow>
      0 \<le> dayIndex start now \<and> dayIndex start now \<le> int (length days)
      \<and> d \<in> set days \<and> sint (Day d) = dayIndex start now)
   \<and> (0 \<le> dayIndex start now \<and> dayIndex start now \<le> int (length days) \<longrightarrow>
      (currentDaySchedule days start now = None
       \<longleftrightarrow> (\<forall>e \<in> set days. sint (Day e) \<noteq> dayIndex start now)))
   \<and> (dayIndex start now < 0 \<or> int (length days) < dayIndex start now \<longrightarrow>
      currentDaySchedule days start now = None \<and> loop_branch days start now = OutOfRange)
   \<and> (loop_branch days start now = OutOfRange \<longleftrightarrow> currentDaySchedule days start now = None)
   \<and> (- 171 * nanosPerDay \<le> now - start \<and> now - start < 170 * nanosPerDay \<longrightarrow>
      dayIndex start now = (now - start) div nanosPerDay + 1)"
proof (intro conjI impI)
  assume "currentDaySchedule days start now = Some d"
  then have r: "\<not> (dayIndex start now < 0 \<or> int (length days) < dayIndex start now)"
    and f: "find (\<lambda>d. sint (Day d) = dayIndex start now) days = Some d"
    by (simp_all add: currentDaySchedule_def Let_def split: if_splits)
  from r show "0 \<le> dayIndex start now" and "dayIndex start now \<le> int (length days)" by simp_all
  from find_Some_set [OF f] show "d \<in> set days" and "sint (Day d) = dayIndex start now" by simp_all
next
  assume "0 \<le> dayIndex start now \<and> dayIndex start now \<le> int (length days)"
  then have "currentDaySchedule days start now = find (\<lambda>d. sint (Day d) = dayIndex start now) days"
    by (simp add: currentDaySchedule_def Let_def)
  then show "currentDaySchedule days start now = None
      \<longleftrightarrow> (\<forall>e \<in> set days. sint (Day e) \<noteq> dayIndex start now)"
    by (auto simp add: find_None_iff)
next
  assume "dayIndex start now < 0 \<or> int (length days) < dayIndex start now"
  then show "currentDaySchedule days start now = None"
    by (simp add: currentDaySchedule_def Let_def)
  then show "loop_branch days start now = OutOfRange"
    by (simp add: loop_branch_def)
next
  show "loop_branch days start now = OutOfRange \<longleftrightarrow> currentDaySchedule days start now = None"
    by (simp add: loop_branch_def split: option.splits)
next
  assume "- 171 * nanosPerDay \<le> now - start \<and> now - start < 170 * nanosPerDay"
  then show "dayIndex start now = (now - start) div nanosPerDay + 1"
    by (simp add: dayIndex_exact)
qed

theorem C3_currentDaySchedule_witness:
  "currentDaySchedule preStartDays twelveHours 0 = Some (preStartDays ! 0)
   \<and> dayIndex twelveHours 0 = 0
   \<and> sint (Day (preStartDays ! 0)) = 0
   \<and> - 171 * nanosPerDay \<le> 0 - twelveHours \<and> 0 - twelveHours < 170 * nanosPerDay
   \<and> dayIndex 0 nanosPerDay = 2
   \<and> dayIndex 0 nanosPerDay \<le> int (length preStartDays)
   \<and> list_all (\<lambda>e. sint (Day e) \<noteq> dayIndex 0 nanosPerDay) preStartDays
   \<and> currentDaySchedule preStartDays 0 nanosPerDay = None
   \<and> dayIndex 0 (5 * nanosPerDay) = 6
   \<and> int (length preStartDays) < dayIndex 0 (5 * nanosPerDay)
   \<and> currentDaySchedule preStartDays 0 (5 * nanosPerDay) = None
   \<and> loop_branch preStartDays 0 (5 * nanosPerDay) = OutOfRange"
proof -
  have i0: "dayIndex twelveHours 0 = 0"
    using C3_currentDaySchedule [of preStartDays twelveHours 0 "preStartDays ! 0"]
    by (simp add: twelveHours_def nanosPerDay_def)
  have i2: "dayIndex 0 nanosPerDay = 2"
    using C3_currentDaySchedule [of preStartDays 0 nanosPerDay "preStartDays ! 0"]
    by (simp add: nanosPerDay_def)
  have i6: "dayIndex 0 (5 * nanosPerDay) = 6"
    using C3_currentDaySchedule [of preStartDays 0 "5 * nanosPerDay" "preStartDays ! 0"]
    by (simp add: nanosPerDay_def)
  have s0: "currentDaySchedule preStartDays twelveHours 0 = Some (preStartDays ! 0)"
    by (simp add: currentDaySchedule_def i0 preStartDays_def)
  have n2: "\<forall>e \<in> set preStartDays. sint (Day e) \<noteq> dayIndex 0 nanosPerDay"
    by (simp add: i2 preStartDays_def)
  have s2: "currentDaySchedule preStartDays 0 nanosPerDay = None"
    using C3_currentDaySchedule [of preStartDays 0 nanosPerDay "preStartDays ! 0"] n2
    by (simp add: i2 preStartDays_def)
  have s6: "currentDaySchedule preStartDays 0 (5 * nanosPerDay) = None
      \<and> loop_branch preStartDays 0 (5 * nanosPerDay) = OutOfRange"
    using C3_currentDaySchedule [of preStartDays 0 "5 * nanosPerDay" "preStartDays ! 0"]
    by (simp add: i6 preStartDays_def)
  have r: "- 171 * nanosPerDay \<le> 0 - twelveHours \<and> 0 - twelveHours < 170 * nanosPerDay"
    by (simp add: twelveHours_def nanosPerDay_def)
  have l: "int (length preStartDays) = 2" "sint (Day (preStartDays ! 0)) = 0"
    by (simp_all add: preStartDays_def)
  from i0 i2 i6 s0 n2 s2 s6 r l show ?thesis by (simp add: list_all_iff)
qed
section \<open>The image cache\<close>

lemma sint_Hour: "sint Hour = 3600000000000"
  by (simp add: Hour_def Minute_def Second_def Nanosecond_def)

lemma getOrBuild_bypass:
  "sint ttl \<le> 0 \<Longrightarrow> getOrBuild c key ttl build now0 now1 now2 = \<lparr>ret = build, cache = c, builds = 1\<rparr>"
  by (simp add: getOrBuild_def split: option.splits)

lemma getOrBuild_miss_store:
  assumes "0 < sint ttl" and "\<not> unexpired items key now0"
  shows "getOrBuild (Some items) key ttl (Inr d) now0 now1 now2 =
           \<lparr>ret = Inr d,
            cache = Some (let items1 = fmupd key \<lparr>data = d, expiresAt = time_Add now1 ttl\<rparr> items
                          in if 512 < fcard (fmdom items1) then sweep now2 items1 else items1),
            builds = 1\<rparr>"
  using assms by (auto simp: getOrBuild_def unexpired_def Let_def split: option.splits)

lemma getOrBuild_hit:
  assumes "0 < sint ttl" and "fmlookup items key = Some cached" and "now0 < expiresAt cached"
  shows "getOrBuild (Some items) key ttl build now0 now1 now2 =
           \<lparr>ret = Inr (data cached), cache = Some items, builds = 0\<rparr>"
  using assms by (simp add: getOrBuild_def time_Before_def)

lemma getOrBuild_expired_builds:
  assumes "0 < sint ttl" and "\<not> unexpired items key now0"
  shows "builds (getOrBuild (Some items) key ttl build now0 now1 now2) = 1"
  using assms by (auto simp: getOrBuild_def unexpired_def Let_def split: option.splits sum.splits)

text \<open>The sweep keeps the entry just stored as long as the clock has not passed its expiry.\<close>

lemma stored_lookup:
  assumes "now2 \<le> time_Add now1 ttl"
  shows "fmlookup (let items1 = fmupd key \<lparr>data = d, expiresAt = time_Add now1 ttl\<rparr> items
                   in if 512 < fcard (fmdom items1) then sweep now2 items1 else items1) key
         = Some \<lparr>data = d, expiresAt = time_Add now1 ttl\<rparr>"
  using assms by (simp add: Let_def sweep_def time_After_def)

text \<open>
  Claim C4, as stated, fails for a builder that fails: nothing is stored, and the second
  of two calls in quick succession invokes the builder again.
\<close>

theorem C4_failing_builder_counterexample:
  "builds (getOrBuild (Some fmempty) ''k'' Hour (Inl (ErrOther ''render'')) 0 0 0)
   + builds (getOrBuild (cache (getOrBuild (Some fmempty) ''k'' Hour (Inl (ErrOther ''render'')) 0 0 0))
               ''k'' Hour (Inl (ErrOther ''render'')) 1 1 1) = 2"
  by (simp add: getOrBuild_def sint_Hour)

text \<open>
  Claim C4, amended. Let \<open>ttl > 0\<close>, let the cache hold no unexpired entry for the key
  when the first call looks it up, and let the builder succeed with the bytes \<open>d\<close>. Then
  the first call \<open>r1\<close> and a second call \<open>r2\<close> that starts after the first has returned
  and before the entry's expiry (the instant \<open>now1\<close> of storing plus \<open>ttl\<close>) invoke the
  builder exactly once between them, the second returns the stored bytes and leaves the
  cache as it was, and a further call \<open>r3\<close> whose lookup happens at or after the expiry
  invokes the builder again.
\<close>

theorem C4_getOrBuild_roundtrip:
  assumes "0 < sint ttl"
    and "\<not> unexpired items key now0"
    and "r1 = getOrBuild (Some items) key ttl (Inr d) now0 now1 now2"
    and "now2 \<le> t0"
    and "t0 < now1 + sint ttl"
    and "r2 = getOrBuild (cache r1) key ttl build2 t0 t1 t2"
    and "now1 + sint ttl \<le> u0"
    and "r3 = getOrBuild (cache r2) key ttl build3 u0 u1 u2"
  shows "builds r1 + builds r2 = 1 \<and> ret r1 = Inr d \<and> ret r2 = Inr d \<and> cache r2 = cache r1
         \<and> builds r3 = 1"
proof -
  let ?e = "\<lparr>data = d, expiresAt = time_Add now1 ttl\<rparr>"
  let ?items2 = "let items1 = fmupd key ?e items
                 in if 512 < fcard (fmdom items1) then sweep now2 items1 else items1"
  have r1: "r1 = \<lparr>ret = Inr d, cache = Some ?items2, builds = 1\<rparr>"
    unfolding assms(3) using assms(1,2) by (rule getOrBuild_miss_store)
  have "now2 \<le> time_Add now1 ttl"
    using assms(4,5) by (simp add: time_Add_def)
  then have look: "fmlookup ?items2 key = Some ?e"
    by (rule stored_lookup)
  have fresh: "t0 < expiresAt ?e"
    using assms(5) by (simp add: time_Add_def)
  from assms(1) look fresh have "getOrBuild (Some ?items2) key ttl build2 t0 t1 t2 =
      \<lparr>ret = Inr (data ?e), cache = Some ?items2, builds = 0\<rparr>"
    by (rule getOrBuild_hit)
  with r1 assms(6) have r2: "r2 = \<lparr>ret = Inr d, cache = Some ?items2, builds = 0\<rparr>"
    by simp
  have stale: "\<not> unexpired ?items2 key u0"
    using look assms(7) by (simp add: unexpired_def time_Before_def time_Add_def)
  from assms(1) stale have "builds (getOrBuild (Some ?items2) key ttl build3 u0 u1 u2) = 1"
    by (rule getOrBuild_expired_builds)
  with r2 assms(8) have "builds r3 = 1"
    by simp
  with r1 r2 show ?thesis by simp
qed

theorem C4_getOrBuild_roundtrip_witness:
  "0 < sint Hour \<and> \<not> unexpired fmempty ''k'' 0 \<and> (2 :: int) \<le> 3 \<and> (3 :: int) < 1 + sint Hour
   \<and> 1 + sint Hour \<le> (3600000000002 :: int)
   \<and> builds firstCall + builds secondCall = 1 \<and> ret firstCall = Inr ''img''
   \<and> ret secondCall = Inr ''img'' \<and> cache secondCall = cache firstCall \<and> builds thirdCall = 1"
proof -
  have h: "0 < sint Hour" "\<not> unexpired fmempty ''k'' 0" "(2 :: int) \<le> 3" "(3 :: int) < 1 + sint Hour"
    "1 + sint Hour \<le> (3600000000002 :: int)"
    by (simp_all add: sint_Hour unexpired_def)
  from C4_getOrBuild_roundtrip [OF h(1) h(2) firstCall_def h(3) h(4) secondCall_def h(5) thirdCall_def] h
  show ?thesis by simp
qed

text \<open>
  Claim C8. For every key and builder, \<open>getOrBuild\<close> with \<open>ttl \<le> 0\<close> calls the builder,
  returns what the builder returns, value or error, and leaves the cache as it was; the
  result is the same whatever the cache \<open>c\<close> or \<open>c'\<close> holds and whatever the clock shows.
\<close>

theorem C8_getOrBuild_bypass:
  "sint ttl \<le> 0 \<longrightarrow>
     getOrBuild c key ttl build now0 now1 now2 = \<lparr>ret = build, cache = c, builds = 1\<rparr>
     \<and> ret (getOrBuild c key ttl build now0 now1 now2) = ret (getOrBuild c' key ttl build t0 t1 t2)"
  by (simp add: getOrBuild_bypass)

theorem C8_getOrBuild_bypass_witness:
  "sint (0 :: Duration) \<le> 0 \<and> sint (- Hour) \<le> 0
   \<and> unexpired staleCache ''k'' 5
   \<and> getOrBuild (Some staleCache) ''k'' 0 (Inr ''new'') 5 6 7 =
       \<lparr>ret = Inr ''new'', cache = Some staleCache, builds = 1\<rparr>
   \<and> getOrBuild (Some staleCache) ''k'' (- Hour) (Inl (ErrOther ''render'')) 5 6 7 =
       \<lparr>ret = Inl (ErrOther ''render''), cache = Some staleCache, builds = 1\<rparr>"
  using C8_getOrBuild_bypass [of 0 "Some staleCache" "''k''" "Inr ''new''" 5 6 7 None 0 0 0]
    C8_getOrBuild_bypass [of "- Hour" "Some staleCache" "''k''" "Inl (ErrOther ''render'')" 5 6 7 None 0 0 0]
  by (simp add: Hour_def Minute_def Second_def Nanosecond_def unexpired_def staleCache_def time_Before_def)

section \<open>Regional calendars\<close>

lemma adjust_in_range:
  assumes "minutesOfDay v" and "- 20 \<le> sint offset" and "sint offset \<le> 5"
  shows "sint (v + offset) = sint v + sint offset" and "\<not> sint (v + offset) < 0"
proof -
  have "sint (v + offset) = signed_take_bit 63 (sint v + sint offset)"
    by (simp add: sint_word_add)
  also have "\<dots> = sint v + sint offset"
    using assms by (intro signed_take_bit_int_eq_self) (simp_all add: minutesOfDay_def)
  finally show "sint (v + offset) = sint v + sint offset" .
  with assms show "\<not> sint (v + offset) < 0"
    by (simp add: minutesOfDay_def)
qed

lemma applyOffset_shiftedBy:
  assumes "list_all minutesOfDay (minuteOffsets bd)" and "- 20 \<le> sint offset" and "sint offset \<le> 5"
  shows "shiftedBy bd offset (applyOffset bd offset)"
proof -
  from assms(1) have m: "minutesOfDay (SuhoorEnd bd)" "minutesOfDay (Fajr bd)" "minutesOfDay (Dhuhr bd)"
    "minutesOfDay (Asr bd)" "minutesOfDay (Maghrib bd)" "minutesOfDay (Isha bd)"
    by (simp_all add: minuteOffsets_def)
  note r = assms(2,3)
  note nn = m [THEN adjust_in_range(2), OF r]
  note eq = m [THEN adjust_in_range(1), OF r]
  have "applyOffset bd offset =
      \<lparr>Data = Data bd, Day = Day bd, SuhoorEnd = SuhoorEnd bd + offset, Fajr = Fajr bd + offset,
       Dhuhr = Dhuhr bd + offset, Asr = Asr bd + offset, Maghrib = Maghrib bd + offset,
       Isha = Isha bd + offset\<rparr>"
    using nn by (simp add: applyOffset_def Let_def)
  then show ?thesis
    by (simp add: shiftedBy_def eq)
qed

lemma map_fst_keyed: "map fst (map (\<lambda>(r, v). (r, g v)) xs) = map fst xs"
  by (induction xs) auto

lemma baseDays_in_range:
  "baseDays \<noteq> None \<and> list_all (\<lambda>bd. list_all minutesOfDay (minuteOffsets bd)) baseDaysList"
  by code_simp

lemma offsets_in_range:
  "distinct (map fst offsets) \<and> list_all (\<lambda>(region, offset). - 20 \<le> sint offset \<and> sint offset \<le> 5) offsets"
  by code_simp

lemma calendarOf_offsets:
  assumes "(region, offset) \<in> set offsets"
  shows "calendarOf region = map (\<lambda>bd. applyOffset bd offset) baseDaysList"
proof -
  obtain bds where b: "baseDays = Some bds"
    using baseDays_in_range by auto
  let ?cals = "map (\<lambda>(region, offset). (region, map (\<lambda>bd. applyOffset bd offset) bds)) offsets"
  have "distinct (map fst ?cals)"
    unfolding map_fst_keyed using offsets_in_range by simp
  moreover have "(region, map (\<lambda>bd. applyOffset bd offset) bds) \<in> set ?cals"
    using assms by force
  ultimately have "map_of ?cals region = Some (map (\<lambda>bd. applyOffset bd offset) bds)"
    by (rule map_of_is_SomeI)
  then show ?thesis
    by (simp add: calendarOf_def buildCalendars_def baseDaysList_def b)
qed

text \<open>
  Claim C7. The timetable parses, and for every region of the offsets table and every day
  of the base timetable the region's calendar entry is the base entry with the region's
  offset added to each of the six times (suhoor end, fajr, dhuhr, asr, maghrib, isha); the
  date string and the day number are unchanged.
\<close>

theorem C7_region_offsets:
  "baseDays \<noteq> None \<and> buildCalendars \<noteq> None
   \<and> (\<forall>(region, offset) \<in> set offsets.
         length (calendarOf region) = length baseDaysList
         \<and> (\<forall>i < length baseDaysList. shiftedBy (baseDaysList ! i) offset (calendarOf region ! i)))"
proof (intro conjI ballI)
  show "baseDays \<noteq> None" using baseDays_in_range by simp
  then show "buildCalendars \<noteq> None" by (auto simp: buildCalendars_def split: option.splits)
next
  fix x assume x: "x \<in> set offsets"
  obtain region offset where ro: "x = (region, offset)" by (cases x)
  from x ro offsets_in_range have r: "- 20 \<le> sint offset" "sint offset \<le> 5"
    by (auto simp: list_all_iff)
  have c: "calendarOf region = map (\<lambda>bd. applyOffset bd offset) baseDaysList"
    using x ro by (intro calendarOf_offsets) simp
  have "\<forall>i < length baseDaysList. shiftedBy (baseDaysList ! i) offset (calendarOf region ! i)"
  proof (intro allI impI)
    fix i assume i: "i < length baseDaysList"
    then have "list_all minutesOfDay (minuteOffsets (baseDaysList ! i))"
      using baseDays_in_range by (simp add: list_all_length)
    then show "shiftedBy (baseDaysList ! i) offset (calendarOf region ! i)"
      using i r by (simp add: c applyOffset_shiftedBy)
  qed
  with c show "case x of (region, offset) \<Rightarrow>
         length (calendarOf region) = length baseDaysList
         \<and> (\<forall>i < length baseDaysList. shiftedBy (baseDaysList ! i) offset (calendarOf region ! i))"
    by (simp add: ro)
qed

text \<open>
  The instance of the repository's test: on day 1 fajr and maghrib of Asht are those of
  Dushanbe, 05:41 and 18:14, less 6 minutes.
\<close>

theorem C7_region_offsets_witness:
  "(asht, - 6) \<in> set offsets \<and> 1 < length baseDaysList
   \<and> length (calendarOf asht) = 31
   \<and> sint (Fajr (baseDaysList ! 1)) = 341 \<and> sint (Maghrib (baseDaysList ! 1)) = 1094
   \<and> sint (Fajr (calendarOf asht ! 1)) = 335 \<and> sint (Maghrib (calendarOf asht ! 1)) = 1088
   \<and> Data (calendarOf asht ! 1) = ''19.02.2026'' \<and> Day (calendarOf asht ! 1) = 1"
proof -
  have m: "(asht, - 6) \<in> set offsets" by code_simp
  have l: "1 < length baseDaysList" "length baseDaysList = 31" by code_simp+
  have b: "sint (Fajr (baseDaysList ! 1)) = 341" "sint (Maghrib (baseDaysList ! 1)) = 1094"
    "Data (baseDaysList ! 1) = ''19.02.2026''" "Day (baseDaysList ! 1) = 1"
    by code_simp+
  from C7_region_offsets m l(1)
  have "length (calendarOf asht) = length baseDaysList"
    and "shiftedBy (baseDaysList ! 1) (- 6) (calendarOf asht ! 1)"
    by auto
  with m l b show ?thesis
    by (simp add: shiftedBy_def)
qed

subsection \<open>The shipped calendars and the day of the cycle\<close>

lemma base_day_numbers: "map (\<lambda>d. sint (Day d)) baseDaysList = [0..30]"
  by code_simp

lemma find_None_iff_image: "find P xs = None \<longleftrightarrow> (\<forall>x \<in> set xs. \<not> P x)"
  by (induction xs) auto

text \<open>
  In each of the shipped calendars, whose 31 entries are numbered 0 to 30, there is a
  schedule exactly for the day numbers 0 to 30.
\<close>

lemma shipped_calendar_schedule:
  assumes "(region, offset) \<in> set offsets"
  shows "currentDaySchedule (calendarOf region) start now \<noteq> None
         \<longleftrightarrow> 0 \<le> dayIndex start now \<and> dayIndex start now \<le> 30"
proof -
  let ?days = "calendarOf region"
  have "map (\<lambda>d. sint (Day d)) ?days = map (\<lambda>d. sint (Day d)) baseDaysList"
    by (simp add: calendarOf_offsets [OF assms] applyOffset_def Let_def comp_def)
  then have n: "map (\<lambda>d. sint (Day d)) ?days = [0..30]"
    by (simp add: base_day_numbers)
  then have "length (map (\<lambda>d. sint (Day d)) ?days) = length [0..30]"
    by simp
  then have len: "int (length ?days) = 31"
    by simp
  have "(\<lambda>d. sint (Day d)) ` set ?days = set [0..30]"
    using n by (metis list.set_map)
  then have "i \<in> (\<lambda>d. sint (Day d)) ` set ?days \<longleftrightarrow> 0 \<le> i \<and> i \<le> 30" for i
    by simp
  then have mem: "(\<exists>d \<in> set ?days. sint (Day d) = i) \<longleftrightarrow> 0 \<le> i \<and> i \<le> 30" for i
    unfolding image_iff by (metis (full_types))
  define i where "i = dayIndex start now"
  have "find (\<lambda>d. sint (Day d) = i) ?days \<noteq> None \<longleftrightarrow> (\<exists>d \<in> set ?days. sint (Day d) = i)"
    by (simp add: find_None_iff_image)
  then have f: "find (\<lambda>d. sint (Day d) = i) ?days \<noteq> None \<longleftrightarrow> 0 \<le> i \<and> i \<le> 30"
    by (simp only: mem)
  have "currentDaySchedule ?days start now \<noteq> None
        \<longleftrightarrow> \<not> (i < 0 \<or> 31 < i) \<and> find (\<lambda>d. sint (Day d) = i) ?days \<noteq> None"
    by (simp add: currentDaySchedule_def Let_def len i_def)
  also have "\<dots> \<longleftrightarrow> 0 \<le> i \<and> i \<le> 30"
    unfolding f by auto
  finally show ?thesis
    by (simp add: i_def)
qed

section \<open>Chat identifiers as map keys\<close>

lemma digitChar_props:
  assumes "0 \<le> d" and "d < 10"
  shows "isDigit (digitChar d)" and "digitVal (digitChar d) = d"
    and "digitChar d \<noteq> CHR ''-''" and "digitChar d \<noteq> CHR ''+''"
proof -
  have v: "(of_char (digitChar d) :: int) = 48 + d"
    using assms by (simp add: digitChar_def)
  show "isDigit (digitChar d)" using assms by (simp add: isDigit_def v)
  show "digitVal (digitChar d) = d" by (simp add: digitVal_def v)
  show "digitChar d \<noteq> CHR ''-''"
  proof
    assume "digitChar d = CHR ''-''"
    then have "(of_char (digitChar d) :: int) = 45" by simp
    with v assms show False by simp
  qed
  show "digitChar d \<noteq> CHR ''+''"
  proof
    assume "digitChar d = CHR ''+''"
    then have "(of_char (digitChar d) :: int) = 43" by simp
    with v assms show False by simp
  qed
qed

lemma decimal_props:
  "0 \<le> n \<Longrightarrow>
   decimal n \<noteq> [] \<and> list_all isDigit (decimal n)
   \<and> foldl (\<lambda>acc c. 10 * acc + digitVal c) 0 (decimal n) = n
   \<and> hd (decimal n) \<noteq> CHR ''-'' \<and> hd (decimal n) \<noteq> CHR ''+''"
proof (induction n rule: decimal.induct)
  case (1 n)
  show ?case
  proof (cases "n < 10")
    case True
    with "1.prems" show ?thesis
      by (subst (1 2 3 4 5) decimal.simps) (simp add: digitChar_props)
  next
    case False
    then have m: "0 \<le> n mod 10" "n mod 10 < 10" by simp_all
    from False have "0 \<le> n div 10" by simp
    with False "1.IH" have ih: "decimal (n div 10) \<noteq> []" "list_all isDigit (decimal (n div 10))"
      "foldl (\<lambda>acc c. 10 * acc + digitVal c) 0 (decimal (n div 10)) = n div 10"
      "hd (decimal (n div 10)) \<noteq> CHR ''-''" "hd (decimal (n div 10)) \<noteq> CHR ''+''"
      by simp_all
    have eq: "decimal n = decimal (n div 10) @ [digitChar (n mod 10)]"
      using False by (subst decimal.simps) simp
    show ?thesis
      unfolding eq using ih m by (simp add: digitChar_props)
  qed
qed

lemma parseDigits_decimal: "0 \<le> n \<Longrightarrow> parseDigits (decimal n) = Some n"
  using decimal_props [of n] by (simp add: parseDigits_def)

lemma ParseInt_FormatInt: "ParseInt (FormatInt i) = Some i"
proof (cases "sint i < 0")
  case True
  have b: "\<not> 2 ^ 63 < - sint i"
    using sint_ge [of i] by simp
  from True have "0 \<le> - sint i" by simp
  then show ?thesis
    using True b by (simp add: FormatInt_def ParseInt_def parseDigits_decimal)
next
  case False
  then have nn: "0 \<le> sint i" by simp
  obtain c cs where d: "decimal (sint i) = c # cs"
    using decimal_props [OF nn] by (cases "decimal (sint i)") auto
  with decimal_props [OF nn] have c: "c \<noteq> CHR ''-''" "c \<noteq> CHR ''+''"
    by simp_all
  have p: "parseDigits (c # cs) = Some (sint i)"
    using parseDigits_decimal [OF nn] d by simp
  have b: "\<not> 2 ^ 63 \<le> sint i"
    using sint_lt [of i] by simp
  show ?thesis
    using False b c p by (simp add: FormatInt_def ParseInt_def d)
qed

lemma FormatInt_inj: "FormatInt a = FormatInt b \<Longrightarrow> a = b"
  by (metis ParseInt_FormatInt option.inject)


section \<open>The subscription store\<close>

lemma snapshot_fold_lookup:
  "distinct (map fst us) \<Longrightarrow>
   map_of (fold (\<lambda>(chatID, settings) out. AList.update (FormatInt chatID) settings out) us acc) (FormatInt c)
     = (case map_of us c of Some u \<Rightarrow> Some u | None \<Rightarrow> map_of acc (FormatInt c))"
proof (induction us arbitrary: acc)
  case Nil
  then show ?case by simp
next
  case (Cons a us)
  obtain c0 u0 where a: "a = (c0, u0)" by (cases a)
  from Cons.prems a have d: "distinct (map fst us)" and n: "c0 \<notin> fst ` set us" by simp_all
  from n have none: "map_of us c0 = None" by (simp add: map_of_eq_None_iff)
  show ?case
    using Cons.IH [OF d, of "AList.update (FormatInt c0) u0 acc"] none
    by (auto simp: a update_conv dest: FormatInt_inj split: option.splits)
qed

lemma snapshot_fold_distinct:
  "distinct (map fst acc) \<Longrightarrow>
   distinct (map fst (fold (\<lambda>(chatID, settings) out. AList.update (FormatInt chatID) settings out) us acc))"
  by (induction us arbitrary: acc) (auto simp: distinct_update)

lemma snapshot_fold_keys:
  "fst ` set (fold (\<lambda>(chatID, settings) out. AList.update (FormatInt chatID) settings out) us acc)
     \<subseteq> fst ` set acc \<union> range FormatInt"
proof (induction us arbitrary: acc)
  case Nil
  then show ?case by simp
next
  case (Cons a us)
  obtain c0 u0 where a: "a = (c0, u0)" by (cases a)
  have "fst ` set (AList.update (FormatInt c0) u0 acc) = insert (FormatInt c0) (fst ` set acc)"
    using dom_update [of "FormatInt c0" u0 acc] by (simp add: dom_map_of_conv_image_fst)
  with Cons.IH [of "AList.update (FormatInt c0) u0 acc"] show ?case
    by (auto simp: a)
qed

lemma load_fold_lookup:
  "distinct (map fst ds) \<Longrightarrow> fst ` set ds \<subseteq> range FormatInt \<Longrightarrow>
   map_of (fold (\<lambda>(key, settings) us.
                   case ParseInt key of None \<Rightarrow> us | Some chatID \<Rightarrow> AList.update chatID settings us) ds acc) c
     = (case map_of ds (FormatInt c) of Some u \<Rightarrow> Some u | None \<Rightarrow> map_of acc c)"
proof (induction ds arbitrary: acc)
  case Nil
  then show ?case by simp
next
  case (Cons a ds)
  obtain k u0 where a: "a = (k, u0)" by (cases a)
  from Cons.prems a obtain c0 where k: "k = FormatInt c0" by auto
  from Cons.prems a have d: "distinct (map fst ds)" and r: "fst ` set ds \<subseteq> range FormatInt"
    and n: "k \<notin> fst ` set ds" by simp_all
  from n have none: "map_of ds (FormatInt c0) = None" by (simp add: map_of_eq_None_iff k)
  show ?case
    using Cons.IH [OF d r, of "AList.update c0 u0 acc"] none
    by (auto simp: a k ParseInt_FormatInt update_conv dest: FormatInt_inj split: option.splits)
qed

lemma load_fold_distinct:
  "distinct (map fst acc) \<Longrightarrow>
   distinct (map fst (fold (\<lambda>(key, settings) us.
                   case ParseInt key of None \<Rightarrow> us | Some chatID \<Rightarrow> AList.update chatID settings us) ds acc))"
  by (induction ds arbitrary: acc) (auto simp: distinct_update split: option.splits)

lemma active_fold_lookup:
  "distinct (map fst us) \<Longrightarrow>
   map_of (fold (\<lambda>(chatID, settings) result.
             (let region = TrimSpace (Region settings)
              in if \<not> Notifications settings \<or> region = [] then result
                 else AList.update chatID region result)) us acc) c
     = (case map_of us c of
          None \<Rightarrow> map_of acc c
        | Some u \<Rightarrow> (case activeRegion u of None \<Rightarrow> map_of acc c | Some r \<Rightarrow> Some r))"
proof (induction us arbitrary: acc)
  case Nil
  then show ?case by simp
next
  case (Cons a us)
  obtain c0 u0 where a: "a = (c0, u0)" by (cases a)
  from Cons.prems a have d: "distinct (map fst us)" and n: "c0 \<notin> fst ` set us" by simp_all
  from n have none: "map_of us c0 = None" by (simp add: map_of_eq_None_iff)
  show ?case
  proof (cases "\<not> Notifications u0 \<or> TrimSpace (Region u0) = []")
    case True
    then show ?thesis
      using Cons.IH [OF d, of acc] none
      by (auto simp: a activeRegion_def Let_def split: option.splits)
  next
    case False
    then show ?thesis
      using Cons.IH [OF d, of "AList.update c0 (TrimSpace (Region u0)) acc"] none
      by (auto simp: a activeRegion_def Let_def update_conv split: option.splits)
  qed
qed

lemma ActiveNotificationRegions_lookup:
  "distinct (map fst (users s)) \<Longrightarrow>
   map_of (ActiveNotificationRegions s) c =
     (case map_of (users s) c of None \<Rightarrow> None | Some u \<Rightarrow> activeRegion u)"
  using active_fold_lookup [of "users s" "[]" c]
  by (simp add: ActiveNotificationRegions_def split: option.splits)

lemma snapshotLocked_lookup:
  "distinct (map fst (users s)) \<Longrightarrow> map_of (snapshotLocked s) (FormatInt c) = map_of (users s) c"
  using snapshot_fold_lookup [of "users s" "[]" c]
  by (simp add: snapshotLocked_def split: option.splits)

lemma writeStateSnapshot_ok:
  assumes "writeStateSnapshot L path snapshot disk = (None, disk')" and "TrimSpace path \<noteq> []"
  shows "\<exists>raw. json_MarshalIndent L \<lparr>Users = snapshot\<rparr> = Inr raw \<and> disk' (TrimSpace path) = File raw"
  using assms
  by (auto simp: writeStateSnapshot_def Let_def os_MkdirAll_def os_WriteFile_def os_Rename_def
      split: sum.splits node.splits if_splits)


lemma loadFromDisk_file:
  assumes "TrimSpace path \<noteq> []" and "disk (TrimSpace path) = File raw" and "TrimSpace raw \<noteq> []"
    and "json_Unmarshal L raw = Inr d"
  shows "loadFromDisk L \<lparr>users = us0, persistPath = path\<rparr> disk =
           Inr \<lparr>users = fold (\<lambda>(key, settings) us.
                                 case ParseInt key of
                                   None \<Rightarrow> us
                                 | Some chatID \<Rightarrow> AList.update chatID settings us)
                              (Users d) us0,
                persistPath = path\<rparr>"
  using assms by (simp add: loadFromDisk_def os_ReadFile_def)

lemma sample_roundtrips: "json_roundtrips sampleLib (snapshotLocked sampleStore)"
  by code_simp

lemma sample_written: "writeStateSnapshot sampleLib ''state.json'' (snapshotLocked sampleStore) emptyDisk = (None, writtenDisk)"
  unfolding writtenDisk_def prod_eq_iff by (rule conjI, code_simp, simp)

lemma sample_load: "loadFromDisk sampleLib \<lparr>users = [], persistPath = ''state.json''\<rparr> writtenDisk = Inr sampleStore"
  unfolding writtenDisk_def by code_simp

text \<open>
  Claim C5. Let the store's map be \<open>us\<close> (its keys distinct, as in every Go map), let
  the path not be blank, let the JSON library round-trip the snapshot, and let
  \<open>writeStateSnapshot\<close> have written the snapshot without error. Then \<open>loadFromDisk\<close>
  into an empty store succeeds and yields the same map: the same chats with the same
  language, region, notifications and region-selected fields, records with an empty region
  included. \<open>ActiveNotificationRegions\<close> of the loaded store maps exactly the chats whose
  notifications flag is set and whose trimmed region is not empty, each to its trimmed
  region.
\<close>

theorem C5_snapshot_roundtrip:
  assumes "distinct (map fst us)"
    and "TrimSpace path \<noteq> []"
    and "json_roundtrips L (snapshotLocked \<lparr>users = us, persistPath = path\<rparr>)"
    and "writeStateSnapshot L path (snapshotLocked \<lparr>users = us, persistPath = path\<rparr>) disk = (None, disk')"
  shows "\<exists>s'. loadFromDisk L \<lparr>users = [], persistPath = path\<rparr> disk' = Inr s'
           \<and> map_of (users s') = map_of us
           \<and> (\<forall>chatID. map_of (ActiveNotificationRegions s') chatID =
                 (case map_of us chatID of None \<Rightarrow> None | Some u \<Rightarrow> activeRegion u))"
proof -
  let ?snap = "snapshotLocked \<lparr>users = us, persistPath = path\<rparr>"
  let ?step = "\<lambda>(key, settings) us.
                 case ParseInt key of None \<Rightarrow> us | Some chatID \<Rightarrow> AList.update chatID settings us"
  from writeStateSnapshot_ok [OF assms(4,2)] obtain raw
    where raw: "json_MarshalIndent L \<lparr>Users = ?snap\<rparr> = Inr raw" "disk' (TrimSpace path) = File raw"
    by blast
  from assms(3) raw(1) obtain d
    where d: "TrimSpace raw \<noteq> []" "json_Unmarshal L raw = Inr d" "distinct (map fst (Users d))"
      "set (Users d) = set ?snap"
    by (auto simp: json_roundtrips_def split: sum.splits)
  let ?s' = "\<lparr>users = fold ?step (Users d) [], persistPath = path\<rparr>"
  have load: "loadFromDisk L \<lparr>users = [], persistPath = path\<rparr> disk' = Inr ?s'"
    using assms(2) raw(2) d(1,2) by (rule loadFromDisk_file)
  have snap_distinct: "distinct (map fst ?snap)"
    by (simp add: snapshotLocked_def snapshot_fold_distinct)
  have same: "map_of (Users d) = map_of ?snap"
    using d(3) snap_distinct d(4) by (simp add: map_of_inject_set)
  have keys: "fst ` set (Users d) \<subseteq> range FormatInt"
    using snapshot_fold_keys [of us "[]"] by (simp add: d(4) snapshotLocked_def)
  have users_eq: "map_of (users ?s') = map_of us"
  proof
    fix c
    have "map_of (fold ?step (Users d) []) c = map_of (Users d) (FormatInt c)"
      using load_fold_lookup [OF d(3) keys, of "[]" c] by (simp split: option.splits)
    also have "\<dots> = map_of us c"
      using snapshotLocked_lookup [of "\<lparr>users = us, persistPath = path\<rparr>" c] assms(1)
      by (simp add: same)
    finally show "map_of (users ?s') c = map_of us c" by simp
  qed
  have "distinct (map fst (users ?s'))"
    by (simp add: load_fold_distinct)
  then have "\<forall>chatID. map_of (ActiveNotificationRegions ?s') chatID =
                 (case map_of us chatID of None \<Rightarrow> None | Some u \<Rightarrow> activeRegion u)"
    using users_eq by (simp add: ActiveNotificationRegions_lookup)
  with load users_eq show ?thesis by blast
qed

theorem C5_snapshot_roundtrip_witness:
  "distinct (map fst sampleUsers) \<and> TrimSpace ''state.json'' \<noteq> []
   \<and> json_roundtrips sampleLib (snapshotLocked sampleStore)
   \<and> writeStateSnapshot sampleLib ''state.json'' (snapshotLocked sampleStore) emptyDisk = (None, writtenDisk)
   \<and> loadFromDisk sampleLib \<lparr>users = [], persistPath = ''state.json''\<rparr> writtenDisk = Inr sampleStore
   \<and> map_of (ActiveNotificationRegions sampleStore) 7 = Some asht
   \<and> map_of (ActiveNotificationRegions sampleStore) 8 = None"
proof -
  have h1: "distinct (map fst sampleUsers)" by code_simp
  have h2: "TrimSpace ''state.json'' \<noteq> []" by code_simp
  have h3: "json_roundtrips sampleLib (snapshotLocked \<lparr>users = sampleUsers, persistPath = ''state.json''\<rparr>)"
    using sample_roundtrips by (simp add: sampleStore_def)
  have h4: "writeStateSnapshot sampleLib ''state.json''
              (snapshotLocked \<lparr>users = sampleUsers, persistPath = ''state.json''\<rparr>) emptyDisk = (None, writtenDisk)"
    using sample_written by (simp add: sampleStore_def)
  from C5_snapshot_roundtrip [OF h1 h2 h3 h4] obtain s'
    where s': "loadFromDisk sampleLib \<lparr>users = [], persistPath = ''state.json''\<rparr> writtenDisk = Inr s'"
      "\<forall>chatID. map_of (ActiveNotificationRegions s') chatID =
           (case map_of sampleUsers chatID of None \<Rightarrow> None | Some u \<Rightarrow> activeRegion u)"
    by blast
  from s'(1) sample_load have eq: "s' = sampleStore" by simp
  have a7: "(case map_of sampleUsers 7 of None \<Rightarrow> None | Some u \<Rightarrow> activeRegion u) = Some asht"
    by code_simp
  have a8: "(case map_of sampleUsers 8 of None \<Rightarrow> None | Some u \<Rightarrow> activeRegion u) = None"
    by code_simp
  from s'(2) eq a7 a8 have "map_of (ActiveNotificationRegions sampleStore) 7 = Some asht"
    "map_of (ActiveNotificationRegions sampleStore) 8 = None"
    by simp_all
  with h1 h2 sample_roundtrips sample_written sample_load show ?thesis by simp
qed

text \<open>
  Claim C9. \<open>newStateStore\<close> reads the file at the trimmed path. If it is absent, or
  present and blank, the store starts with no records and there is no error; if it is
  present, not blank and \<open>json.Unmarshal\<close> rejects it, \<open>newStateStore\<close> returns that
  error; and \<open>main\<close> ends the process exactly when \<open>newStateStore\<close> returns an error.
\<close>

theorem C9_newStateStore:
  "(disk (TrimSpace (TrimSpace path)) = Missing \<longrightarrow>
      newStateStore L path disk = Inr \<lparr>users = [], persistPath = TrimSpace path\<rparr>)
   \<and> (disk (TrimSpace (TrimSpace path)) = File raw \<and> TrimSpace raw = [] \<longrightarrow>
      newStateStore L path disk = Inr \<lparr>users = [], persistPath = TrimSpace path\<rparr>)
   \<and> (TrimSpace (TrimSpace path) \<noteq> [] \<and> disk (TrimSpace (TrimSpace path)) = File raw
        \<and> TrimSpace raw \<noteq> [] \<and> json_Unmarshal L raw = Inl err \<longrightarrow>
      newStateStore L path disk = Inl err)
   \<and> (newStateStore L (if TrimSpace env = [] then ''state.json'' else TrimSpace env) disk = Inl err \<longrightarrow>
      main_startup L env disk = Fatal err)
   \<and> (newStateStore L (if TrimSpace env = [] then ''state.json'' else TrimSpace env) disk = Inr st \<longrightarrow>
      main_startup L env disk = Started st (ActiveNotificationRegions st))"
  by (simp add: newStateStore_def loadFromDisk_def os_ReadFile_def os_IsNotExist_def main_startup_def Let_def)

theorem C9_newStateStore_witness:
  "emptyDisk (TrimSpace (TrimSpace ''state.json'')) = Missing
   \<and> newStateStore sampleLib ''state.json'' emptyDisk = Inr \<lparr>users = [], persistPath = ''state.json''\<rparr>
   \<and> blankDisk (TrimSpace (TrimSpace ''state.json'')) = File [CHR '' '', CHR 0x0A]
   \<and> TrimSpace [CHR '' '', CHR 0x0A] = []
   \<and> newStateStore sampleLib ''state.json'' blankDisk = Inr \<lparr>users = [], persistPath = ''state.json''\<rparr>
   \<and> brokenDisk (TrimSpace (TrimSpace ''state.json'')) = File ''{broken'' \<and> TrimSpace ''{broken'' \<noteq> []
   \<and> json_Unmarshal sampleLib ''{broken'' = Inl (ErrOther ''json: invalid character'')
   \<and> newStateStore sampleLib ''state.json'' brokenDisk = Inl (ErrOther ''json: invalid character'')
   \<and> main_startup sampleLib [] brokenDisk = Fatal (ErrOther ''json: invalid character'')
   \<and> main_startup sampleLib [] emptyDisk = Started \<lparr>users = [], persistPath = ''state.json''\<rparr> []"
proof -
  have t: "TrimSpace ''state.json'' = ''state.json''" "TrimSpace [CHR '' '', CHR 0x0A] = []"
    "TrimSpace ''{broken'' = ''{broken''" "TrimSpace [] = []"
    by code_simp+
  have u: "json_Unmarshal sampleLib ''{broken'' = Inl (ErrOther ''json: invalid character'')"
    by code_simp
  have a: "ActiveNotificationRegions \<lparr>users = [], persistPath = ''state.json''\<rparr> = []"
    by (simp add: ActiveNotificationRegions_def)
  show ?thesis
    using C9_newStateStore [of emptyDisk "''state.json''" sampleLib "[]" "ErrOther ''x''" "[]" "\<lparr>users = [], persistPath = ''state.json''\<rparr>"]
      C9_newStateStore [of blankDisk "''state.json''" sampleLib "[CHR '' '', CHR 0x0A]" "ErrOther ''x''" "[]" "\<lparr>users = [], persistPath = ''state.json''\<rparr>"]
      C9_newStateStore [of brokenDisk "''state.json''" sampleLib "''{broken''" "ErrOther ''json: invalid character''" "[]" "\<lparr>users = [], persistPath = ''state.json''\<rparr>"]
    by (simp add: t u a emptyDisk_def blankDisk_def brokenDisk_def)
qed

text \<open>
  Claim C10. For every chat and every region string, the empty one included, after
  \<open>SetRegion\<close> the chat's record has that region, the notifications flag and the
  region-selected flag set, and the language it had before (none for a new record); the
  record of every other chat is unchanged.
\<close>

theorem C10_SetRegion:
  "map_of (users (fst (SetRegion L s chatID region disk))) chatID =
     Some \<lparr>Language = (case map_of (users s) chatID of None \<Rightarrow> [] | Some x \<Rightarrow> Language x),
           Region = region, Notifications = True, RegionSelected = True\<rparr>
   \<and> (other \<noteq> chatID \<longrightarrow>
        map_of (users (fst (SetRegion L s chatID region disk))) other = map_of (users s) other)"
  by (simp add: SetRegion_def Let_def update_conv UserSettings_zero_def split: option.splits)


theorem C10_SetRegion_witness:
  "map_of (users (fst (SetRegion sampleLib sampleStore 9 [] emptyDisk))) 9 =
     Some \<lparr>Language = [], Region = [], Notifications = True, RegionSelected = True\<rparr>
   \<and> (7 :: int64) \<noteq> 9
   \<and> map_of (users (fst (SetRegion sampleLib sampleStore 9 [] emptyDisk))) 7 = map_of (users sampleStore) 7
   \<and> map_of (users (fst (SetRegion sampleLib sampleStore 8 asht emptyDisk))) 8 =
     Some \<lparr>Language = ''tg'', Region = asht, Notifications = True, RegionSelected = True\<rparr>"
  using C10_SetRegion [of sampleLib sampleStore 9 "[]" emptyDisk 7]
    C10_SetRegion [of sampleLib sampleStore 8 asht emptyDisk 7]
  by (simp add: sampleStore_def sampleUsers_def)


section \<open>Notifications and regions\<close>

lemma TrimSpace_en: "TrimSpace ''en'' = ''en''"
  by code_simp

lemma TrimSpace_Nil: "TrimSpace [] = []"
  by code_simp

lemma normalizeLang_en:
  "strings_ToLower L ''en'' = ''en'' \<Longrightarrow> normalizeLang L ''en'' = ''en''"
  by (simp add: normalizeLang_def TrimSpace_en IndexDash_def Let_def)

lemma Get_present: "map_of (users s) c = Some u \<Longrightarrow> Get s c = (u, s)"
  by (simp add: Get_def)

lemma Get_stored: "map_of (users (snd (Get s c))) c = Some (fst (Get s c))"
  by (cases "map_of (users s) c") (simp_all add: Get_def update_conv)

lemma userLang_store: "snd (userLang L s c) = snd (Get s c)"
  by (simp add: userLang_def Let_def split: prod.splits)

lemma list_all_update:
  "list_all P al \<Longrightarrow> P (k, v) \<Longrightarrow> list_all P (AList.update k v al)"
  by (induction al) auto

lemma enabledHasRegion_update:
  "enabledHasRegion s \<Longrightarrow> (Notifications u \<longrightarrow> Region u \<noteq> []) \<Longrightarrow>
   enabledHasRegion (s\<lparr>users := AList.update c u (users s)\<rparr>)"
  by (simp add: enabledHasRegion_def list_all_update)

lemma enabledHasRegion_Get: "enabledHasRegion s \<Longrightarrow> enabledHasRegion (snd (Get s c))"
  by (cases "map_of (users s) c")
    (simp_all add: Get_def enabledHasRegion_update UserSettings_zero_def)

text \<open>The sibling path: switching notifications on or off by command keeps the invariant.\<close>

lemma Bot_setNotifications_keeps_invariant:
  assumes "enabledHasRegion s"
  shows "enabledHasRegion (fst (Bot_setNotifications L msg (s, disk) chatID enabled))"
proof -
  obtain settings s1 where g: "Get s chatID = (settings, s1)" by (cases "Get s chatID")
  have inv1: "enabledHasRegion s1"
    using enabledHasRegion_Get [OF assms, of chatID] g by simp
  have st: "map_of (users s1) chatID = Some settings"
    using Get_stored [of s chatID] g by simp
  then have g1: "Get s1 chatID = (settings, s1)"
    by (rule Get_present)
  then obtain lang where ul: "userLang L s1 chatID = (lang, s1)"
    by (simp add: userLang_def Let_def)
  then have pr: "promptRegion L s1 chatID msg = s1"
    by (simp add: promptRegion_def)
  show ?thesis
  proof (cases "Region settings = []")
    case True
    then show ?thesis
      using inv1 ul g pr by (simp add: Bot_setNotifications_def)
  next
    case False
    have "enabledHasRegion (s1\<lparr>users := AList.update chatID (settings\<lparr>Notifications := enabled\<rparr>) (users s1)\<rparr>)"
      using inv1 False by (intro enabledHasRegion_update) simp_all
    then show ?thesis
      using False ul g st
      by (simp add: Bot_setNotifications_def SetNotifications_def Let_def)
  qed
qed

text \<open>
  Claim C6 says that in every state of the store reachable through the bot's handlers a
  subscriber with notifications enabled has a non-empty region. The handler of a region
  callback does not check the region it is given: from the empty store, the callbacks
  \<open>lang:en\<close> and then \<open>region:\<close> leave the chat with notifications enabled and an
  empty region (\<open>strings.ToLower\<close> maps \<open>en\<close> to itself).
\<close>

theorem C6_region_callback_breaks_invariant:
  assumes "strings_ToLower L ''en'' = ''en''"
  shows "enabledHasRegion \<lparr>users = [], persistPath = pp\<rparr>
    \<and> map_of (users (fst (handleCallback L msg
                             (handleCallback L msg (\<lparr>users = [], persistPath = pp\<rparr>, disk) ''lang:en'' chatID)
                             ''region:'' chatID))) chatID
        = Some \<lparr>Language = ''en'', Region = [], Notifications = True, RegionSelected = True\<rparr>
    \<and> \<not> enabledHasRegion (fst (handleCallback L msg
                             (handleCallback L msg (\<lparr>users = [], persistPath = pp\<rparr>, disk) ''lang:en'' chatID)
                             ''region:'' chatID))"
proof -
  let ?u1 = "\<lparr>Language = ''en'', Region = [], Notifications = False, RegionSelected = False\<rparr>"
  let ?s1 = "\<lparr>users = [(chatID, ?u1)], persistPath = pp\<rparr>"
  have n: "normalizeLang L ''en'' = ''en''"
    using assms by (rule normalizeLang_en)
  have g1: "Get ?s1 chatID = (?u1, ?s1)"
    by (rule Get_present) simp
  have step1: "fst (handleCallback L msg (\<lparr>users = [], persistPath = pp\<rparr>, disk) ''lang:en'' chatID) = ?s1"
    by (simp add: handleCallback_def HasPrefix_def TrimPrefix_def n SetLanguage_def Let_def
        UserSettings_zero_def g1 TrimSpace_Nil promptRegion_def userLang_store)
  obtain disk1 where w1: "handleCallback L msg (\<lparr>users = [], persistPath = pp\<rparr>, disk) ''lang:en'' chatID = (?s1, disk1)"
    using step1 by (cases "handleCallback L msg (\<lparr>users = [], persistPath = pp\<rparr>, disk) ''lang:en'' chatID") simp
  have rl: "requireLanguage L (?s1, disk1) chatID = ((''en'', True), (?s1, disk1))"
    by (simp add: requireLanguage_def g1 n)
  let ?u2 = "\<lparr>Language = ''en'', Region = [], Notifications = True, RegionSelected = True\<rparr>"
  have step2: "fst (handleCallback L msg (?s1, disk1) ''region:'' chatID) = \<lparr>users = [(chatID, ?u2)], persistPath = pp\<rparr>"
    by (simp add: handleCallback_def HasPrefix_def TrimPrefix_def rl SetRegion_def Let_def)
  show ?thesis
    unfolding w1 step2 by (simp add: enabledHasRegion_def)
qed

theorem C6_region_callback_breaks_invariant_witness:
  "strings_ToLower sampleLib ''en'' = ''en''
   \<and> \<not> enabledHasRegion (fst (handleCallback sampleLib ''choose''
          (handleCallback sampleLib ''choose'' (\<lparr>users = [], persistPath = ''state.json''\<rparr>, emptyDisk) ''lang:en'' 42)
          ''region:'' 42))"
proof -
  have h: "strings_ToLower sampleLib ''en'' = ''en''" by code_simp
  from C6_region_callback_breaks_invariant [OF h, of "''state.json''" "''choose''" emptyDisk 42] h
  show ?thesis by simp
qed


end
